theory Spec2Isabelle
  imports Main
begin

section \<open>Python values and exceptions\<close>

text \<open>
  The exceptions that the modelled code of \<^verbatim>\<open>app.py\<close> can raise. \<open>KeyError\<close> carries the
  missing key. \<open>ReadError\<close> stands for whatever \<^verbatim>\<open>pd.read_excel\<close> raises on a file it cannot
  parse, \<open>WriteError\<close> for whatever \<^verbatim>\<open>DataFrame.to_excel\<close> raises.
\<close>

datatype error = KeyError string | IndexError | ValueError | ReadError | WriteError

text \<open>What a method hands back to its caller. No method of the class has a \<^verbatim>\<open>return\<close>
  with a value except \<^verbatim>\<open>detect_data_columns\<close>, so the others return \<open>PyNone\<close>.\<close>

datatype py_value = PyNone | PyBool bool

section \<open>Strings: \<^verbatim>\<open>str.lower\<close> and the \<^verbatim>\<open>in\<close> operator\<close>

text \<open>
  Column labels are strings (lists of bytes). \<^verbatim>\<open>str.lower\<close> is modelled on the ASCII
  letters and leaves every other byte alone; the six patterns below are ASCII.
\<close>

definition lower_char :: "char \<Rightarrow> char" where
  "lower_char c =
     (case map_of (zip ''ABCDEFGHIJKLMNOPQRSTUVWXYZ'' ''abcdefghijklmnopqrstuvwxyz'') c of
        Some l \<Rightarrow> l
      | None \<Rightarrow> c)"

definition lower :: "string \<Rightarrow> string" where
  "lower s = map lower_char s"

fun starts_with :: "string \<Rightarrow> string \<Rightarrow> bool" where
  "starts_with [] s = True"
| "starts_with (p # ps) [] = False"
| "starts_with (p # ps) (c # cs) = (p = c \<and> starts_with ps cs)"

text \<open>\<open>py_in pattern s\<close> is Python's \<^verbatim>\<open>pattern in s\<close> on strings: \<open>pattern\<close> occurs in
  \<open>s\<close> as a contiguous substring.\<close>

fun py_in :: "string \<Rightarrow> string \<Rightarrow> bool" where
  "py_in p [] = (p = [])"
| "py_in p (c # cs) = (starts_with p (c # cs) \<or> py_in p cs)"

section \<open>\<^verbatim>\<open>detect_data_columns\<close>\<close>

definition roll_patterns :: "string list" where
  "roll_patterns = [''roll'', ''enrollment'', ''id'', ''number'']"

definition name_patterns :: "string list" where
  "name_patterns = [''name'', ''student'']"

text \<open>\<^verbatim>\<open>any(pattern in col_lower for pattern in patterns)\<close> with
  \<^verbatim>\<open>col_lower = str(col).lower()\<close>; a label is a string, and \<^verbatim>\<open>str\<close> of a string is the
  string.\<close>

definition matches_any :: "string list \<Rightarrow> string \<Rightarrow> bool" where
  "matches_any patterns col = list_ex (\<lambda>pattern. py_in pattern (lower col)) patterns"

text \<open>Python's truth test on a variable holding \<^verbatim>\<open>None\<close> or a string: \<^verbatim>\<open>not v\<close>
  holds for \<^verbatim>\<open>None\<close> and for the empty string.\<close>

fun py_not :: "string option \<Rightarrow> bool" where
  "py_not None = True"
| "py_not (Some s) = (s = [])"

text \<open>
  The \<^verbatim>\<open>for col in df.columns\<close> loop of \<^verbatim>\<open>detect_data_columns\<close>, with the two local
  variables \<^verbatim>\<open>roll_col\<close> and \<^verbatim>\<open>name_col\<close> as accumulators. The \<^verbatim>\<open>elif\<close> is the second
  branch of the conditional: it is tried only when the first test failed.
\<close>

fun scan_columns :: "string list \<Rightarrow> string option \<Rightarrow> string option \<Rightarrow> string option \<times> string option" where
  "scan_columns [] roll_col name_col = (roll_col, name_col)"
| "scan_columns (col # cols) roll_col name_col =
     (if py_not roll_col \<and> matches_any roll_patterns col
        then scan_columns cols (Some col) name_col
      else if py_not name_col \<and> matches_any name_patterns col
        then scan_columns cols roll_col (Some col)
      else scan_columns cols roll_col name_col)"

text \<open>\<^verbatim>\<open>v or df.columns[i]\<close>: the index is evaluated only when \<open>v\<close> is falsy, and raises
  \<open>IndexError\<close> when the table has no such column.\<close>

definition or_column :: "string option \<Rightarrow> string list \<Rightarrow> nat \<Rightarrow> error + string" where
  "or_column v columns i =
     (if py_not v then (if i < length columns then Inr (columns ! i) else Inl IndexError)
      else Inr (the v))"

text \<open>\<^verbatim>\<open>detect_data_columns\<close> reads only \<^verbatim>\<open>df.columns\<close>; the returned tuple is built left
  to right.\<close>

definition detect_columns :: "string list \<Rightarrow> error + (string \<times> string)" where
  "detect_columns columns =
     (case scan_columns columns None None of
        (roll_col, name_col) \<Rightarrow>
          (case or_column roll_col columns 0 of
             Inl e \<Rightarrow> Inl e
           | Inr r \<Rightarrow>
               (case or_column name_col columns 1 of
                  Inl e \<Rightarrow> Inl e
                | Inr n \<Rightarrow> Inr (r, n))))"

section \<open>The session label and the class name\<close>

text \<open>\<^verbatim>\<open>datetime.now().strftime("%d-%m-%y")\<close>: day, month and the last two digits of the
  year, each as two decimal digits, joined by dashes.\<close>

record datetime =
  year :: nat
  month :: nat
  day :: nat

definition digit_char :: "nat \<Rightarrow> char" where
  "digit_char n = ''0123456789'' ! (n mod 10)"

definition two_digits :: "nat \<Rightarrow> string" where
  "two_digits n = [digit_char (n div 10), digit_char n]"

definition strftime_dmy :: "datetime \<Rightarrow> string" where
  "strftime_dmy now =
     two_digits (day now) @ ''-'' @ two_digits (month now) @ ''-'' @ two_digits (year now mod 100)"

text \<open>\<^verbatim>\<open>os.path.basename(file_path).split('.')[0]\<close>, with \<^verbatim>\<open>/\<close> as the path separator.\<close>

definition basename :: "string \<Rightarrow> string" where
  "basename p = rev (takeWhile (\<lambda>c. c \<noteq> CHR ''/'') (rev p))"

definition class_name_of :: "string \<Rightarrow> string" where
  "class_name_of file_path = takeWhile (\<lambda>c. c \<noteq> CHR ''.'') (basename file_path)"

section \<open>Tables: the operations of \<^verbatim>\<open>pandas.DataFrame\<close> that the code calls\<close>

text \<open>
  A cell is a string, an integer or an empty cell (\<^verbatim>\<open>NaN\<close>). A table has a row index of
  \<open>index_len\<close> rows and an ordered list of labelled columns. Labels may repeat: pandas
  allows it, and selecting a label that is repeated yields every column that carries it.
\<close>

datatype cell = CStr string | CInt int | CNaN

record data_frame =
  index_len :: nat
  data :: "(string \<times> cell list) list"

definition columns :: "data_frame \<Rightarrow> string list" where
  "columns df = map fst (data df)"

text \<open>
  \<^verbatim>\<open>df[key] = values\<close> with a list (or an index-aligned Series) \<open>values\<close>. When \<open>key\<close> is
  carried by \<open>k\<close> columns, \<open>k\<close> at least two, and \<open>values\<close> has \<open>k\<close> elements, pandas takes the
  assignment column by column: the \<open>i\<close>-th of these columns gets \<open>values[i]\<close> in every row.
  Otherwise \<open>values\<close> must hold one value per row, and every column labelled \<open>key\<close> is
  overwritten with it where it stands; when there is none the column is appended.
\<close>

fun setitem_each :: "string \<Rightarrow> nat \<Rightarrow> cell list \<Rightarrow> (string \<times> cell list) list \<Rightarrow> (string \<times> cell list) list" where
  "setitem_each key n vals [] = []"
| "setitem_each key n vals ((l, cs) # rest) =
     (if l = key
      then (case vals of
              [] \<Rightarrow> (l, cs) # setitem_each key n [] rest
            | v # vs \<Rightarrow> (l, replicate n v) # setitem_each key n vs rest)
      else (l, cs) # setitem_each key n vals rest)"

definition setitem :: "data_frame \<Rightarrow> string \<Rightarrow> cell list \<Rightarrow> error + data_frame" where
  "setitem df key vals =
     (let k = count_list (columns df) key in
      if 1 < k \<and> k = length vals
        then Inr (df\<lparr>data := setitem_each key (index_len df) vals (data df)\<rparr>)
      else if length vals \<noteq> index_len df then Inl ValueError
      else if key \<in> set (columns df)
        then Inr (df\<lparr>data := map (\<lambda>(l, cs). if l = key then (l, vals) else (l, cs)) (data df)\<rparr>)
      else Inr (df\<lparr>data := data df @ [(key, vals)]\<rparr>))"

text \<open>\<^verbatim>\<open>df[keys]\<close> with a list of labels: for each requested label in turn, every column
  carrying it; \<open>KeyError\<close> when a label is missing.\<close>

definition getitem_list :: "data_frame \<Rightarrow> string list \<Rightarrow> error + data_frame" where
  "getitem_list df keys =
     (case find (\<lambda>k. k \<notin> set (columns df)) keys of
        Some k \<Rightarrow> Inl (KeyError k)
      | None \<Rightarrow> Inr (df\<lparr>data := concat (map (\<lambda>k. filter (\<lambda>(l, cs). l = k) (data df)) keys)\<rparr>))"

text \<open>\<^verbatim>\<open>df.iterrows()\<close>: each row as the list of its labelled cells.\<close>

definition iterrows :: "data_frame \<Rightarrow> (string \<times> cell) list list" where
  "iterrows df = map (\<lambda>i. map (\<lambda>(l, cs). (l, cs ! i)) (data df)) [0..<index_len df]"

text \<open>\<^verbatim>\<open>row[key]\<close>: the cell when one column carries the label, a Series of the cells when
  several do, \<open>KeyError\<close> when none does.\<close>

datatype row_item = Scalar cell | Series "cell list"

definition row_getitem :: "(string \<times> cell) list \<Rightarrow> string \<Rightarrow> error + row_item" where
  "row_getitem row key =
     (case map snd (filter (\<lambda>(l, v). l = key) row) of
        [] \<Rightarrow> Inl (KeyError key)
      | [v] \<Rightarrow> Inr (Scalar v)
      | vs \<Rightarrow> Inr (Series vs))"

text \<open>\<^verbatim>\<open>sum(1 for value in row if value == "Present")\<close>\<close>

definition count_present :: "(string \<times> cell) list \<Rightarrow> int" where
  "count_present row = int (length (filter (\<lambda>(l, value). value = CStr ''Present'') row))"

section \<open>The application state\<close>

text \<open>
  \<open>classes_data\<close>, \<open>attendance_records\<close> and \<open>student_buttons\<close> are the three dictionaries of
  \<^verbatim>\<open>initialize_data_structures\<close>. A class entry refers to its DataFrame object: \<open>frames\<close> is
  the store of DataFrame objects, a reference is an index into it, and a new object is
  appended. A button is modelled by its background colour. \<open>files\<close> holds what
  \<^verbatim>\<open>to_excel\<close> has written, \<open>dialogs\<close> the message boxes shown so far.
\<close>

record class_info =
  dataframe :: nat
  file_path :: string
  roll_column :: string
  name_column :: string

datatype dialog = LoadFailed error | SaveFailed error | Saved

record state =
  classes_data :: "string \<rightharpoonup> class_info"
  attendance_records :: "string \<rightharpoonup> (string \<rightharpoonup> bool)"
  student_buttons :: "string \<rightharpoonup> (string \<rightharpoonup> string)"
  frames :: "data_frame list"
  files :: "string \<rightharpoonup> data_frame"
  dialogs :: "dialog list"

datatype outcome = Returned py_value state | Raised error state

fun state_of :: "outcome \<Rightarrow> state" where
  "state_of (Returned v st) = st"
| "state_of (Raised e st) = st"

definition initialize_data_structures :: state where
  "initialize_data_structures =
     \<lparr>classes_data = Map.empty, attendance_records = Map.empty, student_buttons = Map.empty,
      frames = [], files = Map.empty, dialogs = []\<rparr>"

definition color_absent :: string where
  "color_absent = ''#E74C3C''"

definition color_present :: string where
  "color_present = ''#2ECC71''"

section \<open>\<^verbatim>\<open>add_new_class\<close>\<close>

definition detect_data_columns :: "data_frame \<Rightarrow> error + (string \<times> string)" where
  "detect_data_columns df = detect_columns (columns df)"

text \<open>
  The body of the \<^verbatim>\<open>try\<close> block. \<open>read\<close> is what \<^verbatim>\<open>pd.read_excel(file_path)\<close> gives: a
  table, or the exception it raises. The only assignment to \<^verbatim>\<open>self\<close> is the last statement,
  so an exception leaves the state as it was.
\<close>

definition load_class :: "state \<Rightarrow> string \<Rightarrow> error + data_frame \<Rightarrow> error + state" where
  "load_class st path read =
     (case read of
        Inl e \<Rightarrow> Inl e
      | Inr df0 \<Rightarrow>
          (case (if ''Total'' \<notin> set (columns df0)
                 then setitem df0 ''Total'' (replicate (index_len df0) (CInt 0))
                 else Inr df0) of
             Inl e \<Rightarrow> Inl e
           | Inr df \<Rightarrow>
               (let class_name = class_name_of path in
                case detect_data_columns df of
                  Inl e \<Rightarrow> Inl e
                | Inr (roll_col, name_col) \<Rightarrow>
                    (let other_columns =
                           filter (\<lambda>col. col \<notin> set [roll_col, name_col, ''Total'']) (columns df)
                     in case getitem_list df ([roll_col, name_col, ''Total''] @ other_columns) of
                          Inl e \<Rightarrow> Inl e
                        | Inr df' \<Rightarrow>
                            Inr (st\<lparr>frames := frames st @ [df'],
                                    classes_data := (classes_data st)(class_name \<mapsto>
                                      \<lparr>dataframe = length (frames st), file_path = path,
                                       roll_column = roll_col, name_column = name_col\<rparr>)\<rparr>)))))"

text \<open>\<open>path\<close> is what the file dialog returned (empty when the dialog was cancelled). A
  caught exception is reported in a message box.\<close>

definition add_new_class :: "state \<Rightarrow> string \<Rightarrow> error + data_frame \<Rightarrow> outcome" where
  "add_new_class st path read =
     (if path = [] then Returned PyNone st
      else case load_class st path read of
             Inl e \<Rightarrow> Returned PyNone (st\<lparr>dialogs := dialogs st @ [LoadFailed e]\<rparr>)
           | Inr st' \<Rightarrow> Returned PyNone st')"

section \<open>\<^verbatim>\<open>open_attendance_screen\<close>, \<^verbatim>\<open>create_student_grid\<close>, \<^verbatim>\<open>toggle_attendance\<close>\<close>

text \<open>
  \<open>py_str\<close> is Python's \<^verbatim>\<open>str\<close> on what \<^verbatim>\<open>row[roll_col]\<close> yields. Its output format belongs
  to the Python runtime and to pandas, so the functions take it as a parameter.

  The loop of \<^verbatim>\<open>create_student_grid\<close>: per row it reads the identifier and the name cell
  (for the button text), stores the new button, coloured absent, and sets the ledger entry
  to \<^verbatim>\<open>False\<close>.
\<close>

fun grid_rows ::
  "(row_item \<Rightarrow> string) \<Rightarrow> string \<Rightarrow> string \<Rightarrow> string \<Rightarrow> (string \<times> cell) list list \<Rightarrow> state \<Rightarrow> outcome" where
  "grid_rows py_str class_name roll_col name_col [] st = Returned PyNone st"
| "grid_rows py_str class_name roll_col name_col (row # rows) st =
     (case row_getitem row roll_col of
        Inl e \<Rightarrow> Raised e st
      | Inr v \<Rightarrow>
          (let student_id = py_str v in
           case row_getitem row name_col of
             Inl e \<Rightarrow> Raised e st
           | Inr nm \<Rightarrow>
               (case student_buttons st class_name of
                  None \<Rightarrow> Raised (KeyError class_name) st
                | Some buttons \<Rightarrow>
                    (let st1 = st\<lparr>student_buttons := (student_buttons st)(class_name \<mapsto>
                                      buttons(student_id \<mapsto> color_absent))\<rparr>
                     in case attendance_records st1 class_name of
                          None \<Rightarrow> Raised (KeyError class_name) st1
                        | Some ledger \<Rightarrow>
                            grid_rows py_str class_name roll_col name_col rows
                              (st1\<lparr>attendance_records := (attendance_records st1)(class_name \<mapsto>
                                      ledger(student_id \<mapsto> False))\<rparr>)))))"

definition create_student_grid :: "(row_item \<Rightarrow> string) \<Rightarrow> state \<Rightarrow> string \<Rightarrow> outcome" where
  "create_student_grid py_str st class_name =
     (case classes_data st class_name of
        None \<Rightarrow> Raised (KeyError class_name) st
      | Some info \<Rightarrow>
          (let df = frames st ! dataframe info;
               st1 = st\<lparr>student_buttons := (student_buttons st)(class_name \<mapsto> Map.empty)\<rparr>
           in grid_rows py_str class_name (roll_column info) (name_column info) (iterrows df) st1))"

definition open_attendance_screen :: "(row_item \<Rightarrow> string) \<Rightarrow> state \<Rightarrow> string \<Rightarrow> outcome" where
  "open_attendance_screen py_str st class_name =
     (let st1 = (if class_name \<notin> dom (attendance_records st)
                 then st\<lparr>attendance_records := (attendance_records st)(class_name \<mapsto> Map.empty)\<rparr>
                 else st)
      in create_student_grid py_str st1 class_name)"

definition toggle_attendance :: "state \<Rightarrow> string \<Rightarrow> string \<Rightarrow> outcome" where
  "toggle_attendance st class_name student_id =
     (case attendance_records st class_name of
        None \<Rightarrow> Raised (KeyError class_name) st
      | Some ledger \<Rightarrow>
          (case ledger student_id of
             None \<Rightarrow> Raised (KeyError student_id) st
           | Some current_status \<Rightarrow>
               (let st1 = st\<lparr>attendance_records := (attendance_records st)(class_name \<mapsto>
                                 ledger(student_id \<mapsto> \<not> current_status))\<rparr>
                in case student_buttons st1 class_name of
                     None \<Rightarrow> Raised (KeyError class_name) st1
                   | Some buttons \<Rightarrow>
                       (case buttons student_id of
                          None \<Rightarrow> Raised (KeyError student_id) st1
                        | Some button \<Rightarrow>
                            Returned PyNone
                              (st1\<lparr>student_buttons := (student_buttons st1)(class_name \<mapsto>
                                      buttons(student_id \<mapsto>
                                        (if \<not> current_status then color_present else color_absent)))\<rparr>)))))"

section \<open>\<^verbatim>\<open>save_attendance\<close>\<close>

text \<open>The first loop: one status per row, \<^verbatim>\<open>'Present'\<close> when the ledger holds \<^verbatim>\<open>True\<close> for
  the row's identifier, \<^verbatim>\<open>'Absent'\<close> otherwise (\<^verbatim>\<open>.get(student_id, False)\<close>).\<close>

fun attendance_list ::
  "(row_item \<Rightarrow> string) \<Rightarrow> state \<Rightarrow> string \<Rightarrow> string \<Rightarrow> (string \<times> cell) list list \<Rightarrow> error + cell list" where
  "attendance_list py_str st class_name roll_col [] = Inr []"
| "attendance_list py_str st class_name roll_col (row # rows) =
     (case row_getitem row roll_col of
        Inl e \<Rightarrow> Inl e
      | Inr v \<Rightarrow>
          (case attendance_records st class_name of
             None \<Rightarrow> Inl (KeyError class_name)
           | Some ledger \<Rightarrow>
               (let status = (if (case ledger (py_str v) of None \<Rightarrow> False | Some b \<Rightarrow> b)
                              then CStr ''Present'' else CStr ''Absent'')
                in case attendance_list py_str st class_name roll_col rows of
                     Inl e \<Rightarrow> Inl e
                   | Inr statuses \<Rightarrow> Inr (status # statuses))))"

text \<open>
  The body of the \<^verbatim>\<open>try\<close> block, statement by statement. \<open>h\<close> is the store of DataFrame
  objects and \<open>r\<close> the reference held by the local variable \<^verbatim>\<open>df\<close>: \<^verbatim>\<open>.copy()\<close> allocates a
  new object, the two item assignments update the object at \<open>r\<close>, and the final selection
  builds the table that is written. \<open>now\<close> is the clock's reading and \<open>writable\<close> tells
  whether \<^verbatim>\<open>to_excel\<close> succeeds. The result is the exception raised, if any, and the state
  reached.
\<close>

definition save_body ::
  "(row_item \<Rightarrow> string) \<Rightarrow> state \<Rightarrow> string \<Rightarrow> datetime \<Rightarrow> bool \<Rightarrow> error option \<times> state" where
  "save_body py_str st class_name now writable =
     (case classes_data st class_name of
        None \<Rightarrow> (Some (KeyError class_name), st)
      | Some info \<Rightarrow>
          (let r = length (frames st);
               h1 = frames st @ [frames st ! dataframe info];
               date = strftime_dmy now;
               roll_col = roll_column info;
               name_col = name_column info
           in case attendance_list py_str st class_name roll_col (iterrows (h1 ! r)) of
                Inl e \<Rightarrow> (Some e, st\<lparr>frames := h1\<rparr>)
              | Inr statuses \<Rightarrow>
                  (case setitem (h1 ! r) date statuses of
                     Inl e \<Rightarrow> (Some e, st\<lparr>frames := h1\<rparr>)
                   | Inr df2 \<Rightarrow>
                       (let h2 = h1[r := df2];
                            attendance_columns =
                              filter (\<lambda>col. col \<notin> set [roll_col, name_col, ''Total'']) (columns (h2 ! r))
                        in case getitem_list (h2 ! r) attendance_columns of
                             Inl e \<Rightarrow> (Some e, st\<lparr>frames := h2\<rparr>)
                           | Inr att \<Rightarrow>
                               (case setitem (h2 ! r) ''Total''
                                       (map (\<lambda>row. CInt (count_present row)) (iterrows att)) of
                                  Inl e \<Rightarrow> (Some e, st\<lparr>frames := h2\<rparr>)
                                | Inr df3 \<Rightarrow>
                                    (let h3 = h2[r := df3];
                                         other_columns =
                                           filter (\<lambda>col. col \<notin> set [roll_col, name_col, ''Total''])
                                             (columns (h3 ! r))
                                     in case getitem_list (h3 ! r)
                                               ([roll_col, name_col, ''Total''] @ other_columns) of
                                          Inl e \<Rightarrow> (Some e, st\<lparr>frames := h3\<rparr>)
                                        | Inr df4 \<Rightarrow>
                                            (if writable
                                             then (None, st\<lparr>frames := h3,
                                                            files := (files st)(file_path info \<mapsto> df4)\<rparr>)
                                             else (Some WriteError, st\<lparr>frames := h3\<rparr>))))))))"

definition save_attendance ::
  "(row_item \<Rightarrow> string) \<Rightarrow> state \<Rightarrow> string \<Rightarrow> datetime \<Rightarrow> bool \<Rightarrow> outcome" where
  "save_attendance py_str st class_name now writable =
     (case save_body py_str st class_name now writable of
        (None, st') \<Rightarrow> Returned PyNone (st'\<lparr>dialogs := dialogs st' @ [Saved]\<rparr>)
      | (Some e, st') \<Rightarrow> Returned PyNone (st'\<lparr>dialogs := dialogs st' @ [SaveFailed e]\<rparr>))"

section \<open>Vocabulary of the properties\<close>

text \<open>What a call returned, when it returned.\<close>

fun value_of :: "outcome \<Rightarrow> py_value option" where
  "value_of (Returned v st) = Some v"
| "value_of (Raised e st) = None"

text \<open>The value of \<^verbatim>\<open>name_col\<close> after the loop has run over \<open>cols\<close> from the value \<open>n\<close>, when
  the identifier test fires on none of \<open>cols\<close>: the first column matching a name pattern,
  unless \<open>n\<close> was set already.\<close>

definition name_after :: "string option \<Rightarrow> string list \<Rightarrow> string option" where
  "name_after n cols =
     (if py_not n
      then (case find (matches_any name_patterns) cols of None \<Rightarrow> n | Some c \<Rightarrow> Some c)
      else n)"

text \<open>Every column of a table has one cell per row of the index.\<close>

definition frame_wf :: "data_frame \<Rightarrow> bool" where
  "frame_wf df = list_all (\<lambda>(l, cs). length cs = index_len df) (data df)"

text \<open>
  What \<^verbatim>\<open>add_new_class\<close> establishes for the table it stores, and what no method changes
  afterwards: the labels are the identifier column, the name column and \<open>Total\<close>, followed
  by the remaining labels, which are distinct and differ from the first three. The first
  three may coincide with one another; when identifier and name column do, the label
  matched a pattern.
\<close>

definition frame_ok :: "data_frame \<Rightarrow> string \<Rightarrow> string \<Rightarrow> bool" where
  "frame_ok df roll_col name_col =
     (frame_wf df \<and>
      take 3 (columns df) = [roll_col, name_col, ''Total''] \<and>
      distinct (drop 3 (columns df)) \<and>
      list_all (\<lambda>col. col \<notin> set [roll_col, name_col, ''Total'']) (drop 3 (columns df)) \<and>
      (roll_col \<noteq> name_col \<or> matches_any roll_patterns roll_col \<or> matches_any name_patterns roll_col))"

definition class_ok :: "state \<Rightarrow> string \<Rightarrow> bool" where
  "class_ok st class_name =
     (case classes_data st class_name of
        None \<Rightarrow> False
      | Some info \<Rightarrow>
          dataframe info < length (frames st) \<and>
          frame_ok (frames st ! dataframe info) (roll_column info) (name_column info))"

text \<open>
  The states the application can be in: it starts from the empty dictionaries, and every
  further state is reached by one of the four callbacks. \<^verbatim>\<open>pd.read_excel\<close> delivers a table
  with one cell per row in every column and with distinct labels (it renames repeated
  headers).
\<close>

inductive reachable :: "(row_item \<Rightarrow> string) \<Rightarrow> state \<Rightarrow> bool" for py_str where
  init: "reachable py_str initialize_data_structures"
| load: "reachable py_str st \<Longrightarrow>
         (case read of Inl e \<Rightarrow> True | Inr df \<Rightarrow> frame_wf df \<and> distinct (columns df)) \<Longrightarrow>
         reachable py_str (state_of (add_new_class st path read))"
| opened: "reachable py_str st \<Longrightarrow>
           reachable py_str (state_of (open_attendance_screen py_str st class_name))"
| toggled: "reachable py_str st \<Longrightarrow>
            reachable py_str (state_of (toggle_attendance st class_name student_id))"
| saved: "reachable py_str st \<Longrightarrow>
          reachable py_str (state_of (save_attendance py_str st class_name now writable))"

text \<open>The student identifiers of a list of rows and of a table, row by row:
  \<^verbatim>\<open>str(row[roll_col])\<close>.\<close>

definition row_ids :: "(row_item \<Rightarrow> string) \<Rightarrow> string \<Rightarrow> (string \<times> cell) list list \<Rightarrow> string list" where
  "row_ids py_str roll_col rows =
     concat (map (\<lambda>row. case row_getitem row roll_col of Inl e \<Rightarrow> [] | Inr v \<Rightarrow> [py_str v]) rows)"

definition roster_ids :: "(row_item \<Rightarrow> string) \<Rightarrow> data_frame \<Rightarrow> string \<Rightarrow> string list" where
  "roster_ids py_str df roll_col = row_ids py_str roll_col (iterrows df)"

text \<open>The cells of row \<open>i\<close> in the attendance columns (every column but identifier, name
  and \<open>Total\<close>), the number of them that are exactly \<open>Present\<close>, and the cells of row \<open>i\<close> in
  the columns labelled \<open>Total\<close>.\<close>

definition attendance_cells :: "data_frame \<Rightarrow> string \<Rightarrow> string \<Rightarrow> nat \<Rightarrow> cell list" where
  "attendance_cells t roll_col name_col i =
     map (\<lambda>(l, cs). cs ! i) (filter (\<lambda>(l, cs). l \<notin> set [roll_col, name_col, ''Total'']) (data t))"

definition present_count :: "data_frame \<Rightarrow> string \<Rightarrow> string \<Rightarrow> nat \<Rightarrow> int" where
  "present_count t roll_col name_col i =
     int (length (filter (\<lambda>v. v = CStr ''Present'') (attendance_cells t roll_col name_col i)))"

definition total_cells :: "data_frame \<Rightarrow> nat \<Rightarrow> cell list" where
  "total_cells t i = map (\<lambda>(l, cs). cs ! i) (filter (\<lambda>(l, cs). l = ''Total'') (data t))"

text \<open>The attendance columns of a table as a table, and the table with its columns in the
  order of the final selection of \<^verbatim>\<open>save_attendance\<close>: the columns labelled as the
  identifier column, those labelled as the name column, those labelled \<open>Total\<close>, then the
  attendance columns.\<close>

definition attendance_part :: "data_frame \<Rightarrow> string \<Rightarrow> string \<Rightarrow> data_frame" where
  "attendance_part df roll_col name_col =
     df\<lparr>data := filter (\<lambda>(l, cs). l \<notin> set [roll_col, name_col, ''Total'']) (data df)\<rparr>"

definition reordered :: "data_frame \<Rightarrow> string \<Rightarrow> string \<Rightarrow> data_frame" where
  "reordered df roll_col name_col =
     df\<lparr>data := filter (\<lambda>(l, cs). l = roll_col) (data df) @
                  filter (\<lambda>(l, cs). l = name_col) (data df) @
                  filter (\<lambda>(l, cs). l = ''Total'') (data df) @
                  filter (\<lambda>(l, cs). l \<notin> set [roll_col, name_col, ''Total'']) (data df)\<rparr>"

section \<open>Example data\<close>

text \<open>An instance of \<^verbatim>\<open>str\<close> for the examples: a string cell is its own text, an
  integer cell is written in decimal, an empty cell is \<open>nan\<close>. The examples hold their
  identifiers as string cells, and none depends on the text of a Series.\<close>

fun str_nat :: "nat \<Rightarrow> string" where
  "str_nat n = (if n < 10 then [digit_char n] else str_nat (n div 10) @ [digit_char n])"

definition str_int :: "int \<Rightarrow> string" where
  "str_int i = (if i < 0 then ''-'' @ str_nat (nat (- i)) else str_nat (nat i))"

definition example_str :: "row_item \<Rightarrow> string" where
  "example_str v =
     (case v of
        Scalar (CStr s) \<Rightarrow> s
      | Scalar (CInt i) \<Rightarrow> str_int i
      | Scalar CNaN \<Rightarrow> ''nan''
      | Series vs \<Rightarrow> ''Series'')"

definition example_sheet :: data_frame where
  "example_sheet =
     \<lparr>index_len = 3,
      data = [(''Roll No'', [CStr ''101'', CStr ''102'', CStr ''103'']),
              (''Student Name'', [CStr ''A'', CStr ''B'', CStr ''C''])]\<rparr>"

text \<open>A sheet whose only identifier-like header stands second, a sheet with a single
  column, and two sheets below two columns.\<close>

definition sheet_class_roll :: data_frame where
  "sheet_class_roll =
     \<lparr>index_len = 1, data = [(''Class'', [CStr ''X'']), (''Roll No'', [CStr ''101''])]\<rparr>"

definition sheet_roll_only :: data_frame where
  "sheet_roll_only = \<lparr>index_len = 2, data = [(''Roll No'', [CStr ''101'', CStr ''102''])]\<rparr>"

definition sheet_total_only :: data_frame where
  "sheet_total_only = \<lparr>index_len = 2, data = [(''Total'', [CInt 0, CInt 0])]\<rparr>"

definition example_date :: datetime where
  "example_date = \<lparr>year = 2024, month = 6, day = 5\<rparr>"

text \<open>A run of the application: the sheet is loaded as class \<open>ClassA\<close>, the session
  view is opened, student \<open>101\<close> is marked present; then a second sheet with the
  same base name is loaded from another directory and the session view is opened again.\<close>

definition other_sheet :: data_frame where
  "other_sheet =
     \<lparr>index_len = 1, data = [(''Roll No'', [CStr ''201'']), (''Student Name'', [CStr ''D''])]\<rparr>"

definition example_loaded :: state where
  "example_loaded =
     state_of (add_new_class initialize_data_structures ''/data/ClassA.xlsx'' (Inr example_sheet))"

definition example_open :: state where
  "example_open = state_of (open_attendance_screen example_str example_loaded ''ClassA'')"

definition example_marked :: state where
  "example_marked = state_of (toggle_attendance example_open ''ClassA'' ''101'')"

definition example_reloaded :: state where
  "example_reloaded =
     state_of (add_new_class example_marked ''/other/ClassA.xlsx'' (Inr other_sheet))"

definition example_reopened :: state where
  "example_reopened = state_of (open_attendance_screen example_str example_reloaded ''ClassA'')"

text \<open>The class loaded from the sheet with the headers \<open>Class, Roll No\<close>.\<close>

definition repeated_loaded :: state where
  "repeated_loaded =
     state_of (add_new_class initialize_data_structures ''/data/ClassA.xlsx'' (Inr sheet_class_roll))"

text \<open>The class loaded from the sheet with the single column \<open>Roll No\<close> and two rows;
  the session view is opened and student \<open>101\<close> is marked present.\<close>

definition pair_marked :: state where
  "pair_marked =
     state_of (toggle_attendance
       (state_of (open_attendance_screen example_str
          (state_of (add_new_class initialize_data_structures ''/data/ClassA.xlsx'' (Inr sheet_roll_only)))
          ''ClassA''))
       ''ClassA'' ''101'')"

text \<open>A sheet that already holds four dated columns, in which \<open>Present\<close> is spelt in
  three ways, and a stale \<open>Total\<close>; it is loaded as class \<open>ClassB\<close>, the session view is
  opened and the student is marked present.\<close>

definition history_sheet :: data_frame where
  "history_sheet =
     \<lparr>index_len = 1,
      data = [(''Roll No'', [CStr ''101'']), (''Student Name'', [CStr ''A'']), (''Total'', [CInt 7]),
              (''01-06-24'', [CStr ''Present'']), (''02-06-24'', [CStr ''present'']),
              (''03-06-24'', [CStr ''PRESENT'']), (''04-06-24'', [CStr ''Present''])]\<rparr>"

definition history_marked :: state where
  "history_marked =
     state_of (toggle_attendance
       (state_of (open_attendance_screen example_str
          (state_of (add_new_class initialize_data_structures ''/data/ClassB.xlsx'' (Inr history_sheet)))
          ''ClassB''))
       ''ClassB'' ''101'')"

section \<open>Strings and the column scan\<close>

declare str_nat.simps [simp del]

lemma matches_any_nonempty:
  "matches_any roll_patterns c \<or> matches_any name_patterns c \<Longrightarrow> c \<noteq> []"
  by (auto simp: matches_any_def roll_patterns_def name_patterns_def lower_def)

lemma scan_columns_name_only:
  "\<not> py_not r \<or> (\<forall>c\<in>set cols. \<not> matches_any roll_patterns c) \<Longrightarrow>
   scan_columns cols r n = (r, name_after n cols)"
proof (induction cols arbitrary: n)
  case Nil
  show ?case by (simp add: name_after_def)
next
  case (Cons c cols)
  have step: "scan_columns (c # cols) r n =
      (if py_not n \<and> matches_any name_patterns c then scan_columns cols r (Some c)
       else scan_columns cols r n)"
    using Cons.prems by auto
  have rest: "\<And>m. scan_columns cols r m = (r, name_after m cols)"
    using Cons.IH Cons.prems by auto
  show ?case
  proof (cases "py_not n \<and> matches_any name_patterns c")
    case True
    then have "c \<noteq> []" using matches_any_nonempty by blast
    with True show ?thesis by (simp add: step rest name_after_def del: scan_columns.simps)
  next
    case False
    then show ?thesis by (auto simp: step rest name_after_def simp del: scan_columns.simps)
  qed
qed

lemma scan_columns_append:
  "scan_columns (xs @ ys) r n = (case scan_columns xs r n of (r', n') \<Rightarrow> scan_columns ys r' n')"
  by (induction xs arbitrary: r n) auto

lemma find_Some_mem: "find P xs = Some x \<Longrightarrow> P x \<and> x \<in> set xs"
  by (induction xs) (auto split: if_splits)

lemma find_append_case:
  "find P (xs @ ys) = (case find P xs of None \<Rightarrow> find P ys | Some x \<Rightarrow> Some x)"
  by (induction xs) auto

lemma name_after_append: "name_after (name_after n xs) ys = name_after n (xs @ ys)"
proof (cases "find (matches_any name_patterns) xs")
  case None
  then show ?thesis by (auto simp: name_after_def find_append_case split: option.splits)
next
  case (Some c)
  then have "matches_any name_patterns c" by (auto simp: find_Some_iff)
  then have "c \<noteq> []" using matches_any_nonempty by blast
  with Some show ?thesis by (auto simp: name_after_def find_append_case split: option.splits)
qed

lemma scan_columns_first_roll:
  assumes "\<forall>c\<in>set pre. \<not> matches_any roll_patterns c" and "matches_any roll_patterns a"
  shows "scan_columns (pre @ a # post) None None = (Some a, find (matches_any name_patterns) (pre @ post))"
proof -
  have a: "a \<noteq> []" using assms(2) matches_any_nonempty by blast
  have "scan_columns (pre @ a # post) None None = scan_columns (a # post) None (name_after None pre)"
    using assms(1) by (simp add: scan_columns_append scan_columns_name_only)
  also have "\<dots> = scan_columns post (Some a) (name_after None pre)"
    using assms(2) by simp
  also have "\<dots> = (Some a, name_after None (pre @ post))"
    using a by (simp add: scan_columns_name_only name_after_append)
  finally show ?thesis by (simp add: name_after_def split: option.splits)
qed

lemma scan_columns_no_roll:
  assumes "\<forall>c\<in>set cols. \<not> matches_any roll_patterns c"
  shows "scan_columns cols None None = (None, find (matches_any name_patterns) cols)"
  using assms by (simp add: scan_columns_name_only name_after_def split: option.splits)

lemmas pattern_eval =
  matches_any_def roll_patterns_def name_patterns_def lower_def lower_char_def

subsection \<open>The scan never gives one column both roles\<close>

text \<open>
  C10. The pattern scan never assigns the same column to the identifier slot and to the
  name slot: when the loop leaves both variables set, they hold the labels of two
  different positions of the column list, and two different labels when the labels are
  distinct. Hence identifier and name column can coincide only when one of them comes
  from the fallback to the first or second column.
\<close>

theorem scan_slots_differ:
  assumes "scan_columns cols None None = (Some r, Some n)"
  shows "(\<exists>i j. i < length cols \<and> j < length cols \<and> i \<noteq> j \<and> cols ! i = r \<and> cols ! j = n) \<and>
         (distinct cols \<longrightarrow> r \<noteq> n)"
proof -
  have "\<exists>c\<in>set cols. matches_any roll_patterns c"
  proof (rule ccontr)
    assume "\<not> (\<exists>c\<in>set cols. matches_any roll_patterns c)"
    then have "scan_columns cols None None = (None, find (matches_any name_patterns) cols)"
      by (simp add: scan_columns_no_roll)
    with assms show False by simp
  qed
  then obtain pre a post where split: "cols = pre @ a # post" "matches_any roll_patterns a"
      "\<forall>c\<in>set pre. \<not> matches_any roll_patterns c"
    using split_list_first_prop [of cols "matches_any roll_patterns"] by blast
  have sc: "scan_columns cols None None = (Some a, find (matches_any name_patterns) (pre @ post))"
    using scan_columns_first_roll [OF split(3,2)] split(1) by simp
  with assms have r: "r = a" and f: "find (matches_any name_patterns) (pre @ post) = Some n"
    by simp_all
  have i: "length pre < length cols" "cols ! length pre = r"
    using split(1) r by simp_all
  have "n \<in> set pre \<or> n \<in> set post" using find_Some_mem [OF f] by simp
  then have "\<exists>j. j < length cols \<and> j \<noteq> length pre \<and> cols ! j = n"
  proof
    assume "n \<in> set pre"
    then obtain j where "j < length pre" "pre ! j = n" by (auto simp: in_set_conv_nth)
    then show ?thesis using split(1) by (auto simp: nth_append intro!: exI [of _ j])
  next
    assume "n \<in> set post"
    then obtain k where "k < length post" "post ! k = n" by (auto simp: in_set_conv_nth)
    then show ?thesis using split(1)
      by (auto simp: nth_append intro!: exI [of _ "Suc (length pre + k)"])
  qed
  then obtain j where j: "j < length cols" "j \<noteq> length pre" "cols ! j = n" by blast
  have pos: "\<exists>i j. i < length cols \<and> j < length cols \<and> i \<noteq> j \<and> cols ! i = r \<and> cols ! j = n"
    using i j by (intro exI [of _ "length pre"] exI [of _ j]) simp
  have "distinct cols \<longrightarrow> r \<noteq> n"
    using i j by (auto simp: nth_eq_iff_index_eq)
  with pos show ?thesis by simp
qed

theorem scan_slots_differ_witness:
  "scan_columns [''Name ID'', ''Roll'', ''Student''] None None = (Some ''Name ID'', Some ''Student'') \<and>
   (\<exists>i j. i < length [''Name ID'', ''Roll'', ''Student''] \<and> j < length [''Name ID'', ''Roll'', ''Student''] \<and>
      i \<noteq> j \<and> [''Name ID'', ''Roll'', ''Student''] ! i = ''Name ID'' \<and>
      [''Name ID'', ''Roll'', ''Student''] ! j = ''Student'') \<and>
   ''Name ID'' \<noteq> ''Student''"
proof -
  have sc: "scan_columns [''Name ID'', ''Roll'', ''Student''] None None = (Some ''Name ID'', Some ''Student'')"
    by (simp add: pattern_eval)
  show ?thesis using sc scan_slots_differ [OF sc] by simp
qed

subsection \<open>Which columns \<^verbatim>\<open>detect_data_columns\<close> returns\<close>

text \<open>
  C3, as stated, fails: in the list \<open>Name ID, Roll\<close> the column \<open>Roll\<close> contains an
  identifier pattern and the different column \<open>Name ID\<close> contains a name pattern, yet the
  scan gives \<open>Name ID\<close> the identifier slot (it contains \<open>id\<close> and comes first), finds no
  name column among the others and falls back to the second column: the result is
  \<open>(Name ID, Roll)\<close>, whose name column contains no name pattern.
\<close>

theorem detect_both_patterns_counterexample:
  "matches_any roll_patterns ''Roll'' \<and> matches_any name_patterns ''Name ID'' \<and>
   ''Roll'' \<noteq> ''Name ID'' \<and>
   detect_data_columns \<lparr>index_len = 0, data = [(''Name ID'', []), (''Roll'', [])]\<rparr> = Inr (''Name ID'', ''Roll'') \<and>
   detect_data_columns \<lparr>index_len = 0, data = [(''Name ID'', []), (''Roll'', [])]\<rparr> \<noteq> Inr (''Roll'', ''Name ID'') \<and>
   \<not> matches_any name_patterns ''Roll''"
  by (simp add: detect_data_columns_def detect_columns_def or_column_def columns_def pattern_eval)

text \<open>
  C3, amended. When \<open>a\<close> is the first column that contains an identifier pattern and \<open>b\<close> is
  the first column, among the columns other than \<open>a\<close>, that contains a name pattern, then
  \<^verbatim>\<open>detect_data_columns\<close> returns \<open>(a, b)\<close>, wherever the two stand in the list; they are
  two different columns.
\<close>

theorem detect_first_match_wins:
  assumes "columns df = pre @ a # post"
    and "\<forall>c\<in>set pre. \<not> matches_any roll_patterns c"
    and "matches_any roll_patterns a"
    and "find (matches_any name_patterns) (pre @ post) = Some b"
  shows "detect_data_columns df = Inr (a, b) \<and> (distinct (columns df) \<longrightarrow> a \<noteq> b)"
proof -
  have a: "a \<noteq> []" using assms(3) matches_any_nonempty by blast
  have "matches_any name_patterns b" using assms(4) by (auto simp: find_Some_iff)
  then have b: "b \<noteq> []" using matches_any_nonempty by blast
  have "scan_columns (columns df) None None = (Some a, Some b)"
    using scan_columns_first_roll [OF assms(2,3), of post] assms(1,4) by simp
  then have res: "detect_data_columns df = Inr (a, b)"
    using a b by (simp add: detect_data_columns_def detect_columns_def or_column_def)
  have "b \<in> set (pre @ post)" using find_Some_mem [OF assms(4)] by simp
  then have "distinct (columns df) \<longrightarrow> a \<noteq> b"
    using assms(1) by auto
  with res show ?thesis by simp
qed

theorem detect_first_match_wins_witness:
  "columns \<lparr>index_len = 0, data = [(''Student Name'', []), (''Name ID'', []), (''Roll'', [])]\<rparr> =
     [''Student Name''] @ ''Name ID'' # [''Roll''] \<and>
   \<not> matches_any roll_patterns ''Student Name'' \<and>
   matches_any roll_patterns ''Name ID'' \<and>
   find (matches_any name_patterns) ([''Student Name''] @ [''Roll'']) = Some ''Student Name'' \<and>
   detect_data_columns \<lparr>index_len = 0, data = [(''Student Name'', []), (''Name ID'', []), (''Roll'', [])]\<rparr> =
     Inr (''Name ID'', ''Student Name'') \<and>
   ''Name ID'' \<noteq> ''Student Name''"
proof -
  let ?df = "\<lparr>index_len = 0, data = [(''Student Name'', []), (''Name ID'', []), (''Roll'', [])]\<rparr>"
  have c: "columns ?df = [''Student Name''] @ ''Name ID'' # [''Roll'']"
    by (simp add: columns_def)
  have p: "\<forall>c\<in>set [''Student Name'']. \<not> matches_any roll_patterns c"
    by (simp add: pattern_eval)
  have a: "matches_any roll_patterns ''Name ID''"
    by (simp add: pattern_eval)
  have b: "find (matches_any name_patterns) ([''Student Name''] @ [''Roll'']) = Some ''Student Name''"
    by (simp add: pattern_eval)
  show ?thesis using c p a b detect_first_match_wins [OF c p a b] by simp
qed

subsection \<open>The fallback can return a column that already has a role\<close>

text \<open>
  C4. The invariant of a loaded class is that identifier column and name column are two
  different columns of the table and that the table has a column \<open>Total\<close>. The code
  does not keep it: for a sheet with the headers \<open>Class, Roll No\<close> the scan finds the
  identifier column \<open>Roll No\<close> and no name column, and the fallback to the second column
  returns \<open>Roll No\<close> again, so that the stored record has the same column as identifier
  and as name column.
\<close>

theorem fallback_repeats_identifier_column:
  "map_option (\<lambda>info. (roll_column info, name_column info))
     (classes_data
        (state_of (add_new_class initialize_data_structures ''/data/ClassA.xlsx'' (Inr sheet_class_roll)))
        ''ClassA'') = Some (''Roll No'', ''Roll No'')"
  by (simp add: add_new_class_def load_class_def initialize_data_structures_def sheet_class_roll_def
      class_name_of_def basename_def detect_data_columns_def detect_columns_def or_column_def
      columns_def setitem_def getitem_list_def pattern_eval)

subsection \<open>Tables with fewer than two columns\<close>

text \<open>
  C8, as stated, fails: \<^verbatim>\<open>add_new_class\<close> appends the \<open>Total\<close> column before it detects the
  columns, so a sheet with the single column \<open>Roll No\<close> has two columns by then. The name
  column is unresolved after the scan, the fallback takes the second column, \<open>Total\<close>, no
  error is reported and the class is stored.
\<close>

theorem single_column_loads_counterexample:
  "length (columns sheet_roll_only) < 2 \<and>
   snd (scan_columns (columns sheet_roll_only) None None) = None \<and>
   dialogs (state_of (add_new_class initialize_data_structures ''/data/ClassA.xlsx'' (Inr sheet_roll_only))) = [] \<and>
   map_option (\<lambda>info. (roll_column info, name_column info))
     (classes_data
        (state_of (add_new_class initialize_data_structures ''/data/ClassA.xlsx'' (Inr sheet_roll_only)))
        ''ClassA'') = Some (''Roll No'', ''Total'')"
  by (simp add: add_new_class_def load_class_def initialize_data_structures_def sheet_roll_only_def
      class_name_of_def basename_def detect_data_columns_def detect_columns_def or_column_def
      columns_def setitem_def getitem_list_def pattern_eval)

text \<open>
  C8, amended. When the sheet still has fewer than two columns after \<open>Total\<close> has been
  appended, that is, when it has no column at all or \<open>Total\<close> as its only column, the
  fallback to the second column raises \<open>IndexError\<close>; \<^verbatim>\<open>add_new_class\<close> catches it, reports
  it in an error dialog and leaves the rest of the state, \<open>classes_data\<close> included, as it
  was.
\<close>

theorem load_fails_below_two_columns:
  assumes "path \<noteq> []" and "columns df = [] \<or> columns df = [''Total'']"
  shows "add_new_class st path (Inr df) =
           Returned PyNone (st\<lparr>dialogs := dialogs st @ [LoadFailed IndexError]\<rparr>)"
proof -
  have "load_class st path (Inr df) = Inl IndexError"
    using assms(2)
    by (auto simp: load_class_def setitem_def columns_def detect_data_columns_def
        detect_columns_def or_column_def pattern_eval)
  then show ?thesis using assms(1) by (simp add: add_new_class_def)
qed

theorem load_fails_below_two_columns_witness:
  "''/data/ClassA.xlsx'' \<noteq> [] \<and> columns sheet_total_only = [''Total''] \<and>
   value_of (add_new_class initialize_data_structures ''/data/ClassA.xlsx'' (Inr sheet_total_only)) = Some PyNone \<and>
   dialogs (state_of (add_new_class initialize_data_structures ''/data/ClassA.xlsx'' (Inr sheet_total_only))) =
     [LoadFailed IndexError] \<and>
   classes_data (state_of (add_new_class initialize_data_structures ''/data/ClassA.xlsx'' (Inr sheet_total_only)))
     ''ClassA'' = None"
proof -
  have p: "''/data/ClassA.xlsx'' \<noteq> []" by simp
  have c: "columns sheet_total_only = [] \<or> columns sheet_total_only = [''Total'']"
    by (simp add: columns_def sheet_total_only_def)
  show ?thesis
    using load_fails_below_two_columns [OF p c, of initialize_data_structures]
    by (simp add: columns_def sheet_total_only_def initialize_data_structures_def)
qed

section \<open>The example run, evaluated\<close>

lemmas load_eval =
  add_new_class_def load_class_def initialize_data_structures_def
  class_name_of_def basename_def detect_data_columns_def detect_columns_def or_column_def
  columns_def setitem_def getitem_list_def pattern_eval

lemma example_loaded_eq:
  "example_loaded =
     \<lparr>classes_data = [''ClassA'' \<mapsto> \<lparr>dataframe = 0, file_path = ''/data/ClassA.xlsx'',
                                      roll_column = ''Roll No'', name_column = ''Student Name''\<rparr>],
      attendance_records = Map.empty, student_buttons = Map.empty,
      frames = [\<lparr>index_len = 3,
                 data = [(''Roll No'', [CStr ''101'', CStr ''102'', CStr ''103'']),
                         (''Student Name'', [CStr ''A'', CStr ''B'', CStr ''C'']),
                         (''Total'', [CInt 0, CInt 0, CInt 0])]\<rparr>],
      files = Map.empty, dialogs = []\<rparr>"
  by (simp add: example_loaded_def example_sheet_def load_eval numeral_eq_Suc)

lemmas str_eval = example_str_def

lemmas open_eval =
  open_attendance_screen_def create_student_grid_def iterrows_def row_getitem_def str_eval
  Let_def

lemma example_open_eq:
  "example_open =
     example_loaded\<lparr>attendance_records :=
        [''ClassA'' \<mapsto> [''101'' \<mapsto> False, ''102'' \<mapsto> False, ''103'' \<mapsto> False]],
       student_buttons :=
        [''ClassA'' \<mapsto> [''101'' \<mapsto> color_absent, ''102'' \<mapsto> color_absent, ''103'' \<mapsto> color_absent]]\<rparr>"
  by (simp add: example_open_def example_loaded_eq open_eval upt_rec numeral_eq_Suc)

lemma example_marked_eq:
  "example_marked =
     example_open\<lparr>attendance_records :=
        [''ClassA'' \<mapsto> [''101'' \<mapsto> True, ''102'' \<mapsto> False, ''103'' \<mapsto> False]],
       student_buttons :=
        [''ClassA'' \<mapsto> [''101'' \<mapsto> color_present, ''102'' \<mapsto> color_absent, ''103'' \<mapsto> color_absent]]\<rparr>"
  by (simp add: example_marked_def example_open_eq example_loaded_eq toggle_attendance_def Let_def fun_upd_twist)

lemma example_reloaded_eq:
  "example_reloaded =
     example_marked\<lparr>classes_data :=
        [''ClassA'' \<mapsto> \<lparr>dataframe = 1, file_path = ''/other/ClassA.xlsx'',
                          roll_column = ''Roll No'', name_column = ''Student Name''\<rparr>],
       frames := frames example_marked @
         [\<lparr>index_len = 1,
           data = [(''Roll No'', [CStr ''201'']), (''Student Name'', [CStr ''D'']),
                   (''Total'', [CInt 0])]\<rparr>]\<rparr>"
  by (simp add: example_reloaded_def other_sheet_def example_marked_eq example_open_eq
      example_loaded_eq load_eval numeral_eq_Suc)

lemma example_reopened_ledger:
  "attendance_records example_reopened ''ClassA'' =
     Some [''101'' \<mapsto> True, ''102'' \<mapsto> False, ''103'' \<mapsto> False, ''201'' \<mapsto> False]"
  by (simp add: example_reopened_def example_reloaded_eq example_marked_eq example_open_eq
      example_loaded_eq open_eval upt_rec numeral_eq_Suc)

lemma example_marked_ok: "class_ok example_marked ''ClassA''"
  by (simp add: class_ok_def frame_ok_def frame_wf_def columns_def example_marked_eq
      example_open_eq example_loaded_eq pattern_eval)

section \<open>What a save leaves alone\<close>

lemma save_body_frame:
  "save_body py_str st c now w = (e, st') \<Longrightarrow>
   classes_data st' = classes_data st \<and> attendance_records st' = attendance_records st \<and>
   student_buttons st' = student_buttons st \<and> dialogs st' = dialogs st \<and>
   take (length (frames st)) (frames st') = frames st \<and>
   (\<forall>p. p \<notin> set (map file_path (case classes_data st c of None \<Rightarrow> [] | Some i \<Rightarrow> [i])) \<longrightarrow> files st' p = files st p)"
  by (auto simp: save_body_def Let_def split: option.splits sum.splits if_splits)

text \<open>
  C9. \<^verbatim>\<open>save_attendance\<close> never changes the state in memory, whether the save succeeds or
  fails: the class records and the ledgers are as before, and every DataFrame object that
  existed before the call is unchanged, the stored table of the class among them. The
  merge works on the copy, a new object; the date column and the recomputed \<open>Total\<close> reach
  the written file only.
\<close>

theorem save_leaves_memory_unchanged:
  "classes_data (state_of (save_attendance py_str st c now w)) = classes_data st \<and>
   attendance_records (state_of (save_attendance py_str st c now w)) = attendance_records st \<and>
   take (length (frames st)) (frames (state_of (save_attendance py_str st c now w))) = frames st \<and>
   (\<forall>c' info. classes_data st c' = Some info \<and> dataframe info < length (frames st) \<longrightarrow>
      frames (state_of (save_attendance py_str st c now w)) ! dataframe info =
      frames st ! dataframe info)"
proof -
  obtain e st' where b: "save_body py_str st c now w = (e, st')" by (cases "save_body py_str st c now w")
  have s: "state_of (save_attendance py_str st c now w) =
      st'\<lparr>dialogs := dialogs st' @ [case e of None \<Rightarrow> Saved | Some x \<Rightarrow> SaveFailed x]\<rparr>"
    using b by (cases e) (simp_all add: save_attendance_def)
  from save_body_frame [OF b]
  have m: "classes_data st' = classes_data st" "attendance_records st' = attendance_records st"
    "take (length (frames st)) (frames st') = frames st"
    by simp_all
  have "frames st' ! r = frames st ! r" if "r < length (frames st)" for r
  proof -
    have "frames st' ! r = take (length (frames st)) (frames st') ! r" using that by simp
    then show ?thesis by (simp add: m(3))
  qed
  then show ?thesis using m by (simp add: s)
qed

section \<open>\<^verbatim>\<open>toggle_attendance\<close>\<close>



text \<open>The state in which the class has been loaded a second time and opened again is
  reachable; there the key \<open>101\<close> is in the ledger and has no button.\<close>

lemma example_reopened_reachable: "reachable example_str example_reopened"
  unfolding example_reopened_def example_reloaded_def example_marked_def example_open_def
    example_loaded_def
  by (intro reachable.intros)
    (simp_all add: example_sheet_def other_sheet_def frame_wf_def columns_def)



section \<open>\<^verbatim>\<open>open_attendance_screen\<close>\<close>

lemma row_getitem_ok:
  "key \<in> fst ` set row \<Longrightarrow> \<exists>v. row_getitem row key = Inr v"
proof -
  assume "key \<in> fst ` set row"
  then have "filter (\<lambda>(l, v). l = key) row \<noteq> []"
    by (auto simp: filter_empty_conv)
  then show ?thesis
    by (auto simp: row_getitem_def split: list.splits)
qed

lemma row_ids_simps:
  "row_ids py_str roll [] = []"
  "row_getitem row roll = Inr v \<Longrightarrow> row_ids py_str roll (row # rows) = py_str v # row_ids py_str roll rows"
  by (simp_all add: row_ids_def)

lemma grid_rows_result:
  assumes "\<forall>row\<in>set rows. roll \<in> fst ` set row \<and> name \<in> fst ` set row"
    and "student_buttons st c = Some bs" and "attendance_records st c = Some led"
  shows "\<exists>st' led' bs'. grid_rows py_str c roll name rows st = Returned PyNone st' \<and>
           classes_data st' = classes_data st \<and> frames st' = frames st \<and>
           files st' = files st \<and> dialogs st' = dialogs st \<and>
           attendance_records st' c = Some led' \<and>
           (\<forall>sid. led' sid = (if sid \<in> set (row_ids py_str roll rows) then Some False else led sid)) \<and>
           (\<forall>c'. c' \<noteq> c \<longrightarrow> attendance_records st' c' = attendance_records st c' \<and>
                   student_buttons st' c' = student_buttons st c') \<and>
           student_buttons st' c = Some bs' \<and>
           (\<forall>sid. bs' sid = (if sid \<in> set (row_ids py_str roll rows) then Some color_absent else bs sid))"
  using assms
proof (induction rows arbitrary: st bs led)
  case Nil
  then show ?case by (simp add: row_ids_simps)
next
  case (Cons row rows)
  obtain v where v: "row_getitem row roll = Inr v" using Cons.prems(1) row_getitem_ok by fastforce
  obtain nm where nm: "row_getitem row name = Inr nm" using Cons.prems(1) row_getitem_ok by fastforce
  define bs2 where "bs2 = bs(py_str v \<mapsto> color_absent)"
  define led2 where "led2 = led(py_str v \<mapsto> False)"
  define st2 where "st2 = st\<lparr>student_buttons := (student_buttons st)(c \<mapsto> bs2),
                  attendance_records := (attendance_records st)(c \<mapsto> led2)\<rparr>"
  have step: "grid_rows py_str c roll name (row # rows) st = grid_rows py_str c roll name rows st2"
    using v nm Cons.prems(2,3) by (simp add: Let_def st2_def bs2_def led2_def)
  have rows_ok: "\<forall>row\<in>set rows. roll \<in> fst ` set row \<and> name \<in> fst ` set row"
    using Cons.prems(1) by simp
  have p1: "student_buttons st2 c = Some bs2" and p2: "attendance_records st2 c = Some led2"
    by (simp_all add: st2_def)
  from Cons.IH [OF rows_ok p1 p2]
  obtain st' led' bs' where r: "grid_rows py_str c roll name rows st2 = Returned PyNone st'"
    "classes_data st' = classes_data st2" "frames st' = frames st2" "files st' = files st2"
    "dialogs st' = dialogs st2"
    "attendance_records st' c = Some led'"
    "\<forall>sid. led' sid = (if sid \<in> set (row_ids py_str roll rows) then Some False else led2 sid)"
    "\<forall>c'. c' \<noteq> c \<longrightarrow> attendance_records st' c' = attendance_records st2 c' \<and>
                   student_buttons st' c' = student_buttons st2 c'"
    "student_buttons st' c = Some bs'"
    "\<forall>sid. bs' sid = (if sid \<in> set (row_ids py_str roll rows) then Some color_absent else bs2 sid)"
    by blast
  have ids: "row_ids py_str roll (row # rows) = py_str v # row_ids py_str roll rows"
    using v by (simp add: row_ids_simps)
  have a: "\<forall>sid. led' sid = (if sid \<in> set (row_ids py_str roll (row # rows)) then Some False else led sid)"
    using r(7) by (simp add: ids led2_def)
  have b: "\<forall>sid. bs' sid = (if sid \<in> set (row_ids py_str roll (row # rows)) then Some color_absent else bs sid)"
    using r(10) by (simp add: ids bs2_def)
  have c: "\<forall>c'. c' \<noteq> c \<longrightarrow> attendance_records st' c' = attendance_records st c' \<and>
                   student_buttons st' c' = student_buttons st c'"
    using r(8) by (simp add: st2_def)
  have d: "classes_data st' = classes_data st" "frames st' = frames st" "files st' = files st"
    "dialogs st' = dialogs st"
    using r(2-5) by (simp_all add: st2_def)
  show ?case
    unfolding step using r(1,6,9) a b c d by blast
qed

text \<open>
  C6, as stated, fails: the ledger of a class is created only when the class has none
  (\<^verbatim>\<open>if class_name not in self.attendance_records\<close>) and is never replaced afterwards; an
  open overwrites the entries of the current roster and no others. In the example run,
  student \<open>101\<close> is marked present, a second sheet with the same base name and the single
  student \<open>201\<close> is loaded, and the session view is opened again: the flag of \<open>101\<close> is
  still present.
\<close>

theorem reopen_keeps_stale_flag_counterexample:
  "class_name_of ''/other/ClassA.xlsx'' = class_name_of ''/data/ClassA.xlsx'' \<and>
   map_option (\<lambda>info. roster_ids example_str (frames example_reloaded ! dataframe info) (roll_column info))
     (classes_data example_reloaded ''ClassA'') = Some [''201''] \<and>
   value_of (open_attendance_screen example_str example_reloaded ''ClassA'') = Some PyNone \<and>
   map_option (\<lambda>ledger. ledger ''101'') (attendance_records example_reopened ''ClassA'') = Some (Some True)"
  by (simp add: example_reopened_ledger example_reloaded_eq example_marked_eq example_open_eq
      example_loaded_eq class_name_of_def basename_def roster_ids_def row_ids_def open_eval
      upt_rec numeral_eq_Suc)

text \<open>
  C6, amended. For every class, every time a session view is opened for it, the open
  returns and afterwards every student identifier of the roster maps to false, whatever
  it mapped to before. Every other key of the ledger keeps its value; a class that had no
  ledger gets one with the roster's entries only.
\<close>

theorem open_resets_roster_entries:
  assumes "class_ok st c" and "classes_data st c = Some info"
  shows "\<exists>st' ledger'. open_attendance_screen py_str st c = Returned PyNone st' \<and>
           attendance_records st' c = Some ledger' \<and>
           (\<forall>sid. ledger' sid =
              (if sid \<in> set (roster_ids py_str (frames st ! dataframe info) (roll_column info))
               then Some False
               else (case attendance_records st c of None \<Rightarrow> None | Some ledger \<Rightarrow> ledger sid)))"
proof -
  define df where "df = frames st ! dataframe info"
  have ok: "frame_ok df (roll_column info) (name_column info)"
    using assms by (simp add: class_ok_def df_def)
  then have t3: "take 3 (columns df) = [roll_column info, name_column info, ''Total'']"
    by (simp add: frame_ok_def)
  have "set (take 3 (columns df)) \<subseteq> set (columns df)" by (rule set_take_subset)
  then have mem: "roll_column info \<in> set (columns df)" "name_column info \<in> set (columns df)"
    using t3 by simp_all
  have labels: "\<forall>row\<in>set (iterrows df). fst ` set row = set (columns df)"
    by (auto simp: iterrows_def columns_def image_iff split: prod.splits) force+
  have rows_ok: "\<forall>row\<in>set (iterrows df).
      roll_column info \<in> fst ` set row \<and> name_column info \<in> fst ` set row"
    using labels mem by simp
  define led0 where "led0 = (case attendance_records st c of None \<Rightarrow> Map.empty | Some l \<Rightarrow> l)"
  define st1 where "st1 = (if c \<notin> dom (attendance_records st)
                 then st\<lparr>attendance_records := (attendance_records st)(c \<mapsto> Map.empty)\<rparr>
                 else st)"
  define st2 where "st2 = st1\<lparr>student_buttons := (student_buttons st1)(c \<mapsto> Map.empty)\<rparr>"
  have q1: "student_buttons st2 c = Some Map.empty" by (simp add: st2_def)
  have q2: "attendance_records st2 c = Some led0"
    by (auto simp: st2_def st1_def led0_def split: option.splits)
  have cd: "classes_data st2 = classes_data st" "frames st2 = frames st"
    by (simp_all add: st2_def st1_def)
  have run: "open_attendance_screen py_str st c =
      grid_rows py_str c (roll_column info) (name_column info) (iterrows df) st2"
    using assms(2)
    by (simp add: open_attendance_screen_def create_student_grid_def Let_def st2_def st1_def df_def)
  from grid_rows_result [OF rows_ok q1 q2, of py_str]
  obtain st' led' where r: "grid_rows py_str c (roll_column info) (name_column info) (iterrows df) st2 =
        Returned PyNone st'" "attendance_records st' c = Some led'"
      "\<forall>sid. led' sid = (if sid \<in> set (row_ids py_str (roll_column info) (iterrows df))
                            then Some False else led0 sid)"
    by blast
  have "\<forall>sid. led' sid =
      (if sid \<in> set (roster_ids py_str df (roll_column info)) then Some False
       else (case attendance_records st c of None \<Rightarrow> None | Some ledger \<Rightarrow> ledger sid))"
    using r(3) by (simp add: roster_ids_def led0_def split: option.splits)
  then show ?thesis
    unfolding run df_def [symmetric] using r(1,2) by blast
qed

theorem open_resets_roster_entries_witness:
  "class_ok example_marked ''ClassA'' \<and>
   map_option (\<lambda>ledger. ledger ''101'') (attendance_records example_marked ''ClassA'') = Some (Some True) \<and>
   (\<exists>st' ledger'. open_attendance_screen example_str example_marked ''ClassA'' = Returned PyNone st' \<and>
      attendance_records st' ''ClassA'' = Some ledger' \<and>
      ledger' ''101'' = Some False \<and> ledger' ''102'' = Some False \<and> ledger' ''103'' = Some False \<and>
      ledger' ''999'' = None)"
proof -
  let ?info = "\<lparr>dataframe = 0, file_path = ''/data/ClassA.xlsx'',
                 roll_column = ''Roll No'', name_column = ''Student Name''\<rparr>"
  have i: "classes_data example_marked ''ClassA'' = Some ?info"
    by (simp add: example_marked_eq example_open_eq example_loaded_eq)
  have ids: "roster_ids example_str (frames example_marked ! dataframe ?info) (roll_column ?info) =
      [''101'', ''102'', ''103'']"
    by (simp add: example_marked_eq example_open_eq example_loaded_eq roster_ids_def row_ids_def
        open_eval upt_rec numeral_eq_Suc)
  have l: "attendance_records example_marked ''ClassA'' =
      Some [''101'' \<mapsto> True, ''102'' \<mapsto> False, ''103'' \<mapsto> False]"
    by (simp add: example_marked_eq)
  from open_resets_roster_entries [OF example_marked_ok i, of example_str]
  obtain st' ledger' where r: "open_attendance_screen example_str example_marked ''ClassA'' = Returned PyNone st'"
    "attendance_records st' ''ClassA'' = Some ledger'"
    "\<forall>sid. ledger' sid = (if sid \<in> set [''101'', ''102'', ''103''] then Some False
       else [''101'' \<mapsto> True, ''102'' \<mapsto> False, ''103'' \<mapsto> False] sid)"
    unfolding ids l by auto
  have "ledger' ''101'' = Some False" "ledger' ''102'' = Some False" "ledger' ''103'' = Some False"
    "ledger' ''999'' = None"
    using r(3) by simp_all
  with r(1,2) example_marked_ok l show ?thesis by auto
qed

section \<open>\<^verbatim>\<open>save_attendance\<close>, step by step\<close>

lemma map_fst_setitem_each: "map fst (setitem_each key n vals xs) = map fst xs"
  by (induction xs arbitrary: vals) (auto split: list.splits)

lemma setitem_each_lengths:
  "(l, cs) \<in> set (setitem_each key n vals xs) \<Longrightarrow> \<forall>x\<in>set xs. length (snd x) = n \<Longrightarrow>
   length cs = n"
  by (induction xs arbitrary: vals) (auto split: list.splits if_splits)

lemma map_fst_overwrite:
  "map fst (map (\<lambda>(l, cs). if l = key then (l, vals) else (l, cs)) xs) = map fst xs"
  by (induction xs) auto

lemma setitem_ok:
  assumes "length vals = index_len df"
  shows "\<exists>df'. setitem df key vals = Inr df' \<and> index_len df' = index_len df \<and>
           columns df' = (if key \<in> set (columns df) then columns df else columns df @ [key])"
proof (cases "1 < count_list (columns df) key \<and> count_list (columns df) key = length vals")
  case True
  have eq: "setitem df key vals =
      Inr (df\<lparr>data := setitem_each key (index_len df) vals (data df)\<rparr>)"
    unfolding setitem_def Let_def using True by (rule if_P)
  have "count_list (columns df) key \<noteq> 0" using True by linarith
  then have "key \<in> set (columns df)" by (simp add: count_list_0_iff)
  then show ?thesis
    by (simp add: eq columns_def map_fst_setitem_each)
next
  case False
  then show ?thesis
    using assms by (auto simp: setitem_def Let_def columns_def map_fst_overwrite)
qed

text \<open>The assignment overwrites or appends whole columns unless the label is carried by
  as many columns, two or more, as there are values.\<close>

lemma setitem_plain:
  assumes "length vals = index_len df"
    and "\<not> (1 < count_list (columns df) key \<and> count_list (columns df) key = index_len df)"
  shows "setitem df key vals =
           Inr (df\<lparr>data := (if key \<in> set (columns df)
                              then map (\<lambda>(l, cs). if l = key then (l, vals) else (l, cs)) (data df)
                              else data df @ [(key, vals)])\<rparr>)"
  using assms by (auto simp: setitem_def Let_def)

lemma setitem_wf:
  assumes "frame_wf df" and "setitem df key vals = Inr df'"
  shows "frame_wf df'"
proof (cases "1 < count_list (columns df) key \<and> count_list (columns df) key = length vals")
  case True
  have "setitem df key vals =
      Inr (df\<lparr>data := setitem_each key (index_len df) vals (data df)\<rparr>)"
    unfolding setitem_def Let_def using True by (rule if_P)
  then have "df' = df\<lparr>data := setitem_each key (index_len df) vals (data df)\<rparr>"
    using assms(2) by simp
  moreover have "\<forall>x\<in>set (data df). length (snd x) = index_len df"
    using assms(1) by (auto simp: frame_wf_def list_all_iff)
  ultimately show ?thesis
    using setitem_each_lengths [of _ _ key "index_len df" vals "data df"]
    by (auto simp: frame_wf_def list_all_iff)
next
  case False
  then show ?thesis
    using assms by (fastforce simp: setitem_def Let_def frame_wf_def list_all_iff split: if_splits)
qed

lemma getitem_list_ok:
  assumes "set keys \<subseteq> set (columns df)"
  shows "getitem_list df keys =
           Inr (df\<lparr>data := concat (map (\<lambda>k. filter (\<lambda>(l, cs). l = k) (data df)) keys)\<rparr>)"
proof -
  have "find (\<lambda>k. k \<notin> set (columns df)) keys = None"
    using assms by (auto simp: find_None_iff)
  then show ?thesis by (simp add: getitem_list_def)
qed

lemma select_distinct_labels:
  "distinct (filter P (map fst xs)) \<Longrightarrow>
   concat (map (\<lambda>k. filter (\<lambda>(l, cs). l = k) xs) (filter P (map fst xs))) =
   filter (\<lambda>(l, cs). P l) xs"
proof (induction xs)
  case Nil
  then show ?case by simp
next
  case (Cons x xs)
  obtain l cs where x: "x = (l, cs)" by (cases x)
  define f where "f = (\<lambda>k. filter (\<lambda>(l, cs). l = k) (x # xs))"
  define g where "g = (\<lambda>k. filter (\<lambda>(l, cs). l = k) xs)"
  define keys where "keys = filter P (map fst xs)"
  have d: "distinct keys" using Cons.prems by (simp add: keys_def x split: if_splits)
  have ih: "concat (map g keys) = filter (\<lambda>(l, cs). P l) xs"
    using Cons.IH d by (simp add: g_def keys_def)
  have rest: "\<And>k. k \<noteq> l \<Longrightarrow> f k = g k"
    by (simp add: f_def g_def x)
  show ?case
  proof (cases "P l")
    case True
    then have nl: "l \<notin> set keys" using Cons.prems by (simp add: keys_def x)
    then have "l \<notin> fst ` set xs" using True by (auto simp: keys_def)
    then have "g l = []" by (force simp: g_def filter_empty_conv)
    then have own: "f l = [x]" by (simp add: f_def g_def x)
    have mfg: "map f keys = map g keys"
      using nl by (intro map_cong refl rest) auto
    have "concat (map f (l # keys)) = x # filter (\<lambda>(l, cs). P l) xs"
      by (simp only: list.map concat.simps mfg own ih append.simps)
    moreover have "filter P (map fst (x # xs)) = l # keys" using True by (simp add: keys_def x)
    ultimately show ?thesis using True unfolding f_def by (simp add: x)
  next
    case False
    have "\<forall>k\<in>set keys. k \<noteq> l" using False by (auto simp: keys_def)
    then have mfg: "map f keys = map g keys"
      by (intro map_cong refl rest) auto
    have "concat (map f keys) = filter (\<lambda>(l, cs). P l) xs"
      by (simp only: mfg ih)
    moreover have "filter P (map fst (x # xs)) = keys" using False by (simp add: keys_def x)
    ultimately show ?thesis using False unfolding f_def by (simp add: x)
  qed
qed

lemma iterrows_labels: "row \<in> set (iterrows df) \<Longrightarrow> map fst row = columns df"
  by (auto simp: iterrows_def columns_def split: prod.splits)

lemma length_iterrows: "length (iterrows df) = index_len df"
  by (simp add: iterrows_def)

lemma attendance_list_ok:
  assumes "\<forall>row\<in>set rows. roll \<in> fst ` set row" and "attendance_records st c = Some led"
  shows "\<exists>statuses. attendance_list py_str st c roll rows = Inr statuses \<and> length statuses = length rows"
  using assms(1)
proof (induction rows)
  case Nil
  then show ?case by simp
next
  case (Cons row rows)
  obtain v where v: "row_getitem row roll = Inr v"
    using Cons.prems row_getitem_ok by fastforce
  from Cons obtain ss where "attendance_list py_str st c roll rows = Inr ss" "length ss = length rows"
    by auto
  then show ?case using v assms(2) by (simp add: Let_def)
qed

lemma attendance_list_cong:
  "attendance_records st c = attendance_records st' c \<Longrightarrow>
   attendance_list py_str st c roll rows = attendance_list py_str st' c roll rows"
  by (induction rows) (auto simp: Let_def split: sum.splits option.splits)

lemma frame_ok_columns:
  assumes "frame_ok df roll name"
  shows "columns df = [roll, name, ''Total''] @ drop 3 (columns df)"
proof -
  have "take 3 (columns df) = [roll, name, ''Total'']"
    using assms by (simp add: frame_ok_def)
  then show ?thesis using append_take_drop_id [of 3 "columns df"] by simp
qed

lemma save_body_steps:
  assumes ok: "class_ok st c" and info: "classes_data st c = Some info"
    and led: "attendance_records st c = Some led"
  shows "\<exists>statuses df2 df3.
     attendance_list py_str st c (roll_column info) (iterrows (frames st ! dataframe info)) = Inr statuses \<and>
     setitem (frames st ! dataframe info) (strftime_dmy now) statuses = Inr df2 \<and>
     setitem df2 ''Total''
       (map (\<lambda>row. CInt (count_present row))
          (iterrows (attendance_part df2 (roll_column info) (name_column info)))) = Inr df3 \<and>
     columns df2 = (if strftime_dmy now \<in> set (columns (frames st ! dataframe info))
                    then columns (frames st ! dataframe info)
                    else columns (frames st ! dataframe info) @ [strftime_dmy now]) \<and>
     columns df3 = columns df2 \<and>
     index_len df2 = index_len (frames st ! dataframe info) \<and>
     index_len df3 = index_len (frames st ! dataframe info) \<and>
     frame_wf df2 \<and> frame_wf df3 \<and>
     save_body py_str st c now w =
       (if w then (None, st\<lparr>frames := frames st @ [df3],
                           files := (files st)(file_path info \<mapsto>
                                      reordered df3 (roll_column info) (name_column info))\<rparr>)
        else (Some WriteError, st\<lparr>frames := frames st @ [df3]\<rparr>))"
proof -
  define df where "df = frames st ! dataframe info"
  define roll where "roll = roll_column info"
  define name where "name = name_column info"
  define date where "date = strftime_dmy now"
  define P where "P = (\<lambda>l. l \<notin> set [roll, name, ''Total''])"
  define others where "others = drop 3 (columns df)"
  have fok: "frame_ok df roll name"
    using ok info by (simp add: class_ok_def df_def roll_def name_def)
  have cols: "columns df = [roll, name, ''Total''] @ others"
    using frame_ok_columns [OF fok] by (simp add: others_def)
  have wf: "frame_wf df" and dist: "distinct others" and allP: "\<forall>l\<in>set others. P l"
    using fok by (simp_all add: frame_ok_def others_def P_def list_all_iff)
  have fP: "filter P (columns df) = others"
    using allP by (simp add: cols P_def)
  have rows_ok: "\<forall>row\<in>set (iterrows df). roll \<in> fst ` set row"
  proof
    fix row assume "row \<in> set (iterrows df)"
    then have "map fst row = columns df" by (rule iterrows_labels)
    then have "fst ` set row = set (columns df)" by (metis set_map)
    then show "roll \<in> fst ` set row" by (simp add: cols)
  qed
  from attendance_list_ok [OF rows_ok led, of py_str]
  obtain statuses where st1: "attendance_list py_str st c roll (iterrows df) = Inr statuses"
    and len1: "length statuses = index_len df"
    by (auto simp: length_iterrows)
  from setitem_ok [OF len1, of date]
  obtain df2 where s2: "setitem df date statuses = Inr df2" and il2: "index_len df2 = index_len df"
    and c2: "columns df2 = (if date \<in> set (columns df) then columns df else columns df @ [date])"
    by blast
  have wf2: "frame_wf df2" using setitem_wf [OF wf s2] .
  have dP2: "distinct (filter P (columns df2))"
  proof (cases "date \<in> set (columns df)")
    case True
    then show ?thesis using dist by (simp add: c2 fP)
  next
    case False
    then have "date \<notin> set others" by (simp add: cols)
    then show ?thesis using dist False by (simp add: c2 fP)
  qed
  have sub2: "set (filter P (columns df2)) \<subseteq> set (columns df2)" by auto
  have sel2: "concat (map (\<lambda>k. filter (\<lambda>(l, cs). l = k) (data df2)) (filter P (columns df2))) =
      filter (\<lambda>(l, cs). P l) (data df2)"
    using select_distinct_labels [OF dP2 [unfolded columns_def]] by (simp only: columns_def)
  have ap: "attendance_part df2 roll name = df2\<lparr>data := filter (\<lambda>(l, cs). P l) (data df2)\<rparr>"
    by (simp add: attendance_part_def P_def)
  have att: "getitem_list df2 (filter P (columns df2)) = Inr (attendance_part df2 roll name)"
    by (simp only: getitem_list_ok [OF sub2] sel2 ap)
  have len3: "length (map (\<lambda>row. CInt (count_present row)) (iterrows (attendance_part df2 roll name))) =
      index_len df2"
    by (simp add: length_iterrows attendance_part_def)
  from setitem_ok [OF len3, of "''Total''"]
  obtain df3 where s3: "setitem df2 ''Total''
       (map (\<lambda>row. CInt (count_present row)) (iterrows (attendance_part df2 roll name))) = Inr df3"
    and il3: "index_len df3 = index_len df2"
    and c3: "columns df3 = (if ''Total'' \<in> set (columns df2) then columns df2 else columns df2 @ [''Total''])"
    by blast
  have tot2: "''Total'' \<in> set (columns df2)" by (simp add: c2 cols)
  have c3': "columns df3 = columns df2" using c3 tot2 by simp
  have wf3: "frame_wf df3" using setitem_wf [OF wf2 s3] .
  have sub3: "set ([roll, name, ''Total''] @ filter P (columns df3)) \<subseteq> set (columns df3)"
    by (auto simp: c3' c2 cols)
  have dP3: "distinct (filter P (columns df3))" using dP2 by (simp only: c3')
  have sel3: "concat (map (\<lambda>k. filter (\<lambda>(l, cs). l = k) (data df3)) (filter P (columns df3))) =
      filter (\<lambda>(l, cs). P l) (data df3)"
    using select_distinct_labels [OF dP3 [unfolded columns_def]] by (simp only: columns_def)
  have ro: "reordered df3 roll name =
      df3\<lparr>data := concat (map (\<lambda>k. filter (\<lambda>(l, cs). l = k) (data df3))
                          ([roll, name, ''Total''] @ filter P (columns df3)))\<rparr>"
    by (simp add: reordered_def sel3) (simp add: P_def)
  have fin: "getitem_list df3 ([roll, name, ''Total''] @ filter P (columns df3)) =
      Inr (reordered df3 roll name)"
    by (simp only: getitem_list_ok [OF sub3] ro)
  have body: "save_body py_str st c now w =
       (if w then (None, st\<lparr>frames := frames st @ [df3],
                           files := (files st)(file_path info \<mapsto> reordered df3 roll name)\<rparr>)
        else (Some WriteError, st\<lparr>frames := frames st @ [df3]\<rparr>))"
    using st1 s2 att [unfolded P_def] s3 fin [unfolded P_def]
    by (simp add: save_body_def info Let_def df_def [symmetric] roll_def [symmetric]
        name_def [symmetric] date_def [symmetric])
  show ?thesis
    using st1 s2 s3 c2 c3' il2 il3 wf2 wf3 body
    unfolding df_def roll_def name_def date_def by auto
qed

section \<open>Cells of the written table\<close>

lemma filter_labels_overwrite:
  "\<not> Q key \<Longrightarrow>
   filter (\<lambda>(l, cs). Q l) (map (\<lambda>(l, cs). if l = key then (l, vals) else (l, cs)) xs) =
   filter (\<lambda>(l, cs). Q l) xs"
  by (induction xs) (auto split: if_splits)

lemma overwritten_cells:
  "(l, cs) \<in> set (map (\<lambda>(l, cs). if l = key then (l, vals) else (l, cs)) xs) \<Longrightarrow> l = key \<Longrightarrow>
   cs = vals"
  by (induction xs) (auto split: if_splits)

lemma count_present_cells:
  "count_present (map (\<lambda>(l, cs). (l, cs ! i)) xs) =
   int (length (filter (\<lambda>v. v = CStr ''Present'') (map (\<lambda>(l, cs). cs ! i) xs)))"
  by (induction xs) (auto simp: count_present_def)

lemma save_attendance_written:
  assumes "save_body py_str st c now True = (None, st')"
  shows "state_of (save_attendance py_str st c now True) = st'\<lparr>dialogs := dialogs st' @ [Saved]\<rparr>"
  using assms by (simp add: save_attendance_def)

section \<open>Saving twice on one date\<close>

lemma starts_with_subset: "starts_with p s \<Longrightarrow> set p \<subseteq> set s"
  by (induction p s rule: starts_with.induct) auto

lemma py_in_subset: "py_in p s \<Longrightarrow> set p \<subseteq> set s"
proof (induction s)
  case Nil
  then show ?case by simp
next
  case (Cons a s)
  from Cons.prems have "starts_with p (a # s) \<or> py_in p s" by simp
  then show ?case
  proof
    assume "starts_with p (a # s)"
    then show ?thesis by (rule starts_with_subset)
  next
    assume "py_in p s"
    then have "set p \<subseteq> set s" by (rule Cons.IH)
    then show ?thesis by auto
  qed
qed

lemma digit_char_digit: "digit_char n \<in> set ''0123456789''"
proof -
  have "n mod 10 < length ''0123456789''" by simp
  then show ?thesis unfolding digit_char_def by (rule nth_mem)
qed

lemma strftime_chars: "set (strftime_dmy now) \<subseteq> set ''0123456789-''"
proof -
  define D where "D = set ''0123456789-''"
  have d: "digit_char n \<in> D" for n
    using digit_char_digit [of n] by (auto simp: D_def)
  have m: "CHR ''-'' \<in> D" by (simp add: D_def)
  have "set (strftime_dmy now) \<subseteq> D"
    using d m by (simp add: strftime_dmy_def two_digits_def)
  then show ?thesis by (simp only: D_def)
qed

lemma lower_char_date: "c \<in> set ''0123456789-'' \<Longrightarrow> lower_char c = c"
proof -
  have "\<forall>c\<in>set ''0123456789-''. lower_char c = c"
    by (simp add: lower_char_def)
  then show "c \<in> set ''0123456789-'' \<Longrightarrow> lower_char c = c" by blast
qed

lemma lower_date: "lower (strftime_dmy now) = strftime_dmy now"
proof -
  have "\<And>c. c \<in> set (strftime_dmy now) \<Longrightarrow> lower_char c = c"
    using strftime_chars lower_char_date by blast
  then show ?thesis unfolding lower_def by (rule map_idI)
qed

lemma date_no_pattern:
  "\<not> matches_any roll_patterns (strftime_dmy now)" "\<not> matches_any name_patterns (strftime_dmy now)"
proof -
  have "\<not> py_in p (lower (strftime_dmy now))" if "p \<in> set (roll_patterns @ name_patterns)" for p
  proof
    assume "py_in p (lower (strftime_dmy now))"
    then have "set p \<subseteq> set (strftime_dmy now)"
      using py_in_subset by (simp add: lower_date)
    then have "set p \<subseteq> set ''0123456789-''"
      using strftime_chars by blast
    then show False using that by (auto simp: roll_patterns_def name_patterns_def)
  qed
  then show "\<not> matches_any roll_patterns (strftime_dmy now)"
    "\<not> matches_any name_patterns (strftime_dmy now)"
    by (auto simp: matches_any_def list_ex_iff)
qed

lemma date_not_total: "strftime_dmy now \<noteq> ''Total''"
  by (simp add: strftime_dmy_def two_digits_def)

lemma count_list_filter: "count_list (filter p xs) d = (if p d then count_list xs d else 0)"
  by (induction xs) auto

lemma count_list_distinct: "distinct xs \<Longrightarrow> count_list xs d = (if d \<in> set xs then 1 else 0)"
  by (induction xs) auto

lemma map_fst_filter_label:
  "map fst (filter (\<lambda>(l, cs). p l) xs) = filter p (map fst xs)"
  by (induction xs) auto

lemma columns_reordered:
  "columns (reordered df roll name) =
     filter (\<lambda>l. l = roll) (columns df) @ filter (\<lambda>l. l = name) (columns df) @
     filter (\<lambda>l. l = ''Total'') (columns df) @
     filter (\<lambda>l. l \<notin> set [roll, name, ''Total'']) (columns df)"
  using map_fst_filter_label [of "\<lambda>l. l = roll" "data df"]
    map_fst_filter_label [of "\<lambda>l. l = name" "data df"]
    map_fst_filter_label [of "\<lambda>l. l = ''Total''" "data df"]
    map_fst_filter_label [of "\<lambda>l. l \<notin> set [roll, name, ''Total'']" "data df"]
  by (simp add: reordered_def columns_def)

lemma one_date_column:
  assumes fok: "frame_ok df roll name"
    and c2: "cols = (if strftime_dmy now \<in> set (columns df) then columns df
                     else columns df @ [strftime_dmy now])"
  shows "count_list
           (filter (\<lambda>l. l = roll) cols @ filter (\<lambda>l. l = name) cols @
            filter (\<lambda>l. l = ''Total'') cols @ filter (\<lambda>l. l \<notin> set [roll, name, ''Total'']) cols)
           (strftime_dmy now) = 1"
proof -
  define date where "date = strftime_dmy now"
  define others where "others = drop 3 (columns df)"
  have cols: "columns df = [roll, name, ''Total''] @ others"
    using frame_ok_columns [OF fok] by (simp add: others_def)
  have dist: "distinct others" and allQ: "\<forall>l\<in>set others. l \<notin> set [roll, name, ''Total'']"
    and same: "roll \<noteq> name \<or> matches_any roll_patterns roll \<or> matches_any name_patterns roll"
    using fok by (simp_all add: frame_ok_def others_def list_all_iff)
  have nt: "date \<noteq> ''Total''" unfolding date_def by (rule date_not_total)
  have np: "\<not> matches_any roll_patterns date" "\<not> matches_any name_patterns date"
    unfolding date_def by (rule date_no_pattern)+
  have total: "count_list
           (filter (\<lambda>l. l = roll) cols @ filter (\<lambda>l. l = name) cols @
            filter (\<lambda>l. l = ''Total'') cols @ filter (\<lambda>l. l \<notin> set [roll, name, ''Total'']) cols) date =
        (if date = roll then count_list cols date else 0) +
        (if date = name then count_list cols date else 0) +
        (if date \<notin> set [roll, name, ''Total''] then count_list cols date else 0)"
    using nt by (simp add: count_list_filter)
  show ?thesis
  proof (cases "date \<in> set [roll, name, ''Total'']")
    case False
    have "count_list cols date = 1"
    proof (cases "date \<in> set others")
      case True
      then show ?thesis using False dist
        by (auto simp: c2 date_def [symmetric] cols count_list_distinct)
    next
      case no: False
      then show ?thesis using False dist
        by (auto simp: c2 date_def [symmetric] cols count_list_distinct)
    qed
    then show ?thesis using False total unfolding date_def by simp
  next
    case True
    then have rn: "date = roll \<or> date = name" using nt by simp
    have ne: "roll \<noteq> name"
    proof
      assume e: "roll = name"
      then have "date = roll" using rn by simp
      then show False using same e np by simp
    qed
    have "date \<notin> set others" using allQ rn by auto
    then have "count_list cols date = 1"
      using rn ne nt by (auto simp: c2 date_def [symmetric] cols count_list_distinct)
    then show ?thesis using rn ne total unfolding date_def by auto
  qed
qed

lemma class_ok_after_save:
  assumes "class_ok st c"
  shows "class_ok (state_of (save_attendance py_str st c now w)) c"
proof -
  obtain e st' where b: "save_body py_str st c now w = (e, st')"
    by (cases "save_body py_str st c now w")
  from save_body_frame [OF b]
  have cd: "classes_data st' = classes_data st"
    and fr: "take (length (frames st)) (frames st') = frames st" by simp_all
  obtain info where info: "classes_data st c = Some info"
    and lt: "dataframe info < length (frames st)"
    and fok: "frame_ok (frames st ! dataframe info) (roll_column info) (name_column info)"
    using assms by (auto simp: class_ok_def split: option.splits)
  have "length (take (length (frames st)) (frames st')) = length (frames st)"
    using fr by simp
  then have len: "length (frames st) \<le> length (frames st')"
    by simp
  have "frames st' ! dataframe info = take (length (frames st)) (frames st') ! dataframe info"
    using lt by simp
  then have same: "frames st' ! dataframe info = frames st ! dataframe info"
    by (simp add: fr)
  have "class_ok st' c"
    using info lt fok len same by (simp add: class_ok_def cd)
  then have "class_ok (st'\<lparr>dialogs := d\<rparr>) c" for d
    by (simp add: class_ok_def split: option.splits)
  then show ?thesis using b by (cases e) (simp_all add: save_attendance_def)
qed

text \<open>
  C5. Saving twice in a row on the same calendar date, with no toggle in between, writes
  the same table both times, so the \<open>Total\<close> column of the second save is that of the
  first; and the written table has exactly one column labelled with that date.
\<close>

theorem save_twice_same_date:
  assumes "class_ok st c" and "classes_data st c = Some info"
    and "attendance_records st c = Some ledger"
    and "strftime_dmy now' = strftime_dmy now"
  shows "\<exists>t. files (state_of (save_attendance py_str st c now True)) (file_path info) = Some t \<and>
           files (state_of (save_attendance py_str
                    (state_of (save_attendance py_str st c now True)) c now' True))
             (file_path info) = Some t \<and>
           count_list (columns t) (strftime_dmy now) = 1"
proof -
  define roll where "roll = roll_column info"
  define name where "name = name_column info"
  define df where "df = frames st ! dataframe info"
  define st1 where "st1 = state_of (save_attendance py_str st c now True)"
  from save_body_steps [OF assms(1-3), of py_str now True]
  obtain statuses df2 df3 where
    a1: "attendance_list py_str st c roll (iterrows df) = Inr statuses"
    and a2: "setitem df (strftime_dmy now) statuses = Inr df2"
    and a3: "setitem df2 ''Total''
       (map (\<lambda>row. CInt (count_present row)) (iterrows (attendance_part df2 roll name))) = Inr df3"
    and c2: "columns df2 = (if strftime_dmy now \<in> set (columns df) then columns df
                            else columns df @ [strftime_dmy now])"
    and c3: "columns df3 = columns df2"
    and body: "save_body py_str st c now True =
       (None, st\<lparr>frames := frames st @ [df3],
                  files := (files st)(file_path info \<mapsto> reordered df3 roll name)\<rparr>)"
    unfolding roll_def name_def df_def by fastforce
  have first: "files st1 (file_path info) = Some (reordered df3 roll name)"
    by (simp add: st1_def save_attendance_written [OF body])
  have ok1: "class_ok st1 c" unfolding st1_def using assms(1) by (rule class_ok_after_save)
  have mem: "classes_data st1 = classes_data st" "attendance_records st1 = attendance_records st"
    "take (length (frames st)) (frames st1) = frames st"
    by (simp_all add: st1_def save_attendance_written [OF body])
  have info1: "classes_data st1 c = Some info" and led1: "attendance_records st1 c = Some ledger"
    using assms(2,3) by (simp_all add: mem)
  have lt: "dataframe info < length (frames st)"
    using assms(1,2) by (simp add: class_ok_def)
  have "frames st1 ! dataframe info = take (length (frames st)) (frames st1) ! dataframe info"
    using lt by simp
  then have same: "frames st1 ! dataframe info = df"
    by (simp add: mem df_def)
  from save_body_steps [OF ok1 info1 led1, of py_str now' True]
  obtain statuses' df2' df3' where
    b1: "attendance_list py_str st1 c roll (iterrows df) = Inr statuses'"
    and b2: "setitem df (strftime_dmy now) statuses' = Inr df2'"
    and b3: "setitem df2' ''Total''
       (map (\<lambda>row. CInt (count_present row)) (iterrows (attendance_part df2' roll name))) = Inr df3'"
    and body': "save_body py_str st1 c now' True =
       (None, st1\<lparr>frames := frames st1 @ [df3'],
                   files := (files st1)(file_path info \<mapsto> reordered df3' roll name)\<rparr>)"
    unfolding roll_def name_def same assms(4) by fastforce
  have "attendance_list py_str st1 c roll (iterrows df) = attendance_list py_str st c roll (iterrows df)"
    by (rule attendance_list_cong) (simp add: mem)
  then have "statuses' = statuses" using a1 b1 by simp
  then have "df2' = df2" using a2 b2 by simp
  then have "df3' = df3" using a3 b3 by simp
  then have second: "files (state_of (save_attendance py_str st1 c now' True)) (file_path info) =
      Some (reordered df3 roll name)"
    by (simp add: save_attendance_written [OF body'])
  have fok: "frame_ok df roll name"
    using assms(1,2) by (simp add: class_ok_def df_def roll_def name_def)
  have "count_list (columns (reordered df3 roll name)) (strftime_dmy now) = 1"
    unfolding columns_reordered c3 by (rule one_date_column [OF fok c2])
  with first second show ?thesis unfolding st1_def roll_def name_def by blast
qed

section \<open>The recomputed \<open>Total\<close>\<close>

text \<open>
  In the table written by a save, the \<open>Total\<close> cell of every row is the number of
  attendance columns (the columns other than the identifier column, the name column and
  \<open>Total\<close>) whose cell in that row is exactly the string \<open>Present\<close>, unless the stored
  table carries the label \<open>Total\<close> in as many columns, two or more, as it has rows. The
  invariant \<open>class_ok\<close> holds of every class of every reachable state
  (\<open>reachable_class_ok\<close>).
\<close>

lemma total_counts_present_unless_spread:
  assumes "class_ok st c" and "classes_data st c = Some info"
    and "attendance_records st c = Some ledger"
    and "\<not> (1 < count_list (columns (frames st ! dataframe info)) ''Total'' \<and>
            count_list (columns (frames st ! dataframe info)) ''Total'' =
              index_len (frames st ! dataframe info))"
  shows "\<exists>t. files (state_of (save_attendance py_str st c now True)) (file_path info) = Some t \<and>
           (\<forall>i<index_len t.
              total_cells t i \<noteq> [] \<and>
              (\<forall>v\<in>set (total_cells t i).
                 v = CInt (present_count t (roll_column info) (name_column info) i)))"
proof -
  define roll where "roll = roll_column info"
  define name where "name = name_column info"
  define Q where "Q = (\<lambda>l. l \<notin> set [roll, name, ''Total''])"
  from save_body_steps [OF assms(1-3), of py_str now True]
  obtain df2 df3 where
    s3: "setitem df2 ''Total''
       (map (\<lambda>row. CInt (count_present row)) (iterrows (attendance_part df2 roll name))) = Inr df3"
    and c2: "columns df2 = (if strftime_dmy now \<in> set (columns (frames st ! dataframe info))
                    then columns (frames st ! dataframe info)
                    else columns (frames st ! dataframe info) @ [strftime_dmy now])"
    and il2: "index_len df2 = index_len (frames st ! dataframe info)"
    and il3: "index_len df3 = index_len (frames st ! dataframe info)"
    and body: "save_body py_str st c now True =
       (None, st\<lparr>frames := frames st @ [df3],
                  files := (files st)(file_path info \<mapsto> reordered df3 roll name)\<rparr>)"
    unfolding roll_def name_def by fastforce
  define totals where
    "totals = map (\<lambda>row. CInt (count_present row)) (iterrows (attendance_part df2 roll name))"
  define t where "t = reordered df3 roll name"
  have written: "files (state_of (save_attendance py_str st c now True)) (file_path info) = Some t"
    by (simp add: save_attendance_written [OF body] t_def)
  have fok: "frame_ok (frames st ! dataframe info) roll name"
    using assms(1,2) by (simp add: class_ok_def roll_def name_def)
  have "''Total'' \<in> set (columns (frames st ! dataframe info))"
    by (subst frame_ok_columns [OF fok]) simp
  then have tot2: "''Total'' \<in> set (columns df2)"
    by (simp add: c2)
  have len: "length totals = index_len df2"
    by (simp add: totals_def length_iterrows attendance_part_def)
  have "count_list (columns df2) ''Total'' = count_list (columns (frames st ! dataframe info)) ''Total''"
    using date_not_total [of now] by (auto simp: c2)
  then have plain: "\<not> (1 < count_list (columns df2) ''Total'' \<and>
      count_list (columns df2) ''Total'' = index_len df2)"
    using assms(4) by (simp add: il2)
  from setitem_plain [OF len plain] s3 tot2
  have d3: "data df3 = map (\<lambda>(l, cs). if l = ''Total'' then (l, totals) else (l, cs)) (data df2)"
    by (auto simp: totals_def)
  have c3: "columns df3 = columns df2"
    unfolding columns_def d3 by (rule map_fst_overwrite)
  have nQ: "\<not> Q ''Total''" "\<not> Q roll" "\<not> Q name" by (simp_all add: Q_def)
  have att3: "filter (\<lambda>(l, cs). Q l) (data df3) = filter (\<lambda>(l, cs). Q l) (data df2)"
    unfolding d3 using nQ(1) by (rule filter_labels_overwrite)
  have dt: "data t = filter (\<lambda>(l, cs). l = roll) (data df3) @ filter (\<lambda>(l, cs). l = name) (data df3) @
      filter (\<lambda>(l, cs). l = ''Total'') (data df3) @ filter (\<lambda>(l, cs). Q l) (data df3)"
    by (simp add: t_def reordered_def Q_def)
  have att_t: "filter (\<lambda>(l, cs). Q l) (data t) = filter (\<lambda>(l, cs). Q l) (data df2)"
    using nQ by (auto simp: dt att3 filter_empty_conv)
  have tot_t: "filter (\<lambda>(l, cs). l = ''Total'') (data t) \<noteq> []"
  proof -
    have "''Total'' \<in> set (columns df3)" using tot2 c3 by simp
    then have "''Total'' \<in> fst ` set (data df3)" by (simp add: columns_def)
    then have "filter (\<lambda>(l, cs). l = ''Total'') (data df3) \<noteq> []"
      by (force simp: filter_empty_conv)
    then show ?thesis by (simp add: dt)
  qed
  have cells_t: "cs = totals" if "(l, cs) \<in> set (data t)" and "l = ''Total''" for l cs
  proof -
    have "(l, cs) \<in> set (data df3)" using that(1) by (auto simp: dt)
    then show ?thesis using that(2) unfolding d3 by (rule overwritten_cells)
  qed
  have ilt: "index_len t = index_len df2" by (simp add: t_def reordered_def il3 il2)
  have row: "total_cells t i \<noteq> [] \<and>
      (\<forall>v\<in>set (total_cells t i). v = CInt (present_count t roll name i))" if i: "i < index_len t" for i
  proof -
    have ne: "total_cells t i \<noteq> []" using tot_t by (simp add: total_cells_def)
    have ri: "iterrows (attendance_part df2 roll name) ! i =
        map (\<lambda>(l, cs). (l, cs ! i)) (filter (\<lambda>(l, cs). Q l) (data df2))"
      using i ilt by (simp add: iterrows_def attendance_part_def Q_def)
    have "totals ! i = CInt (count_present (iterrows (attendance_part df2 roll name) ! i))"
      using i ilt by (simp add: totals_def length_iterrows attendance_part_def)
    also have "\<dots> = CInt (present_count t roll name i)"
      using att_t
      by (simp add: ri count_present_cells present_count_def attendance_cells_def Q_def)
    finally have ti: "totals ! i = CInt (present_count t roll name i)" .
    have "\<forall>v\<in>set (total_cells t i). v = totals ! i"
      using cells_t by (auto simp: total_cells_def)
    with ne ti show ?thesis by simp
  qed
  show ?thesis using written row unfolding roll_def name_def by blast
qed

section \<open>A save, evaluated\<close>

lemma example_date_str: "strftime_dmy example_date = ''05-06-24''"
  by (simp add: strftime_dmy_def two_digits_def digit_char_def example_date_def)

lemma history_marked_eq:
  "history_marked =
     \<lparr>classes_data = [''ClassB'' \<mapsto> \<lparr>dataframe = 0, file_path = ''/data/ClassB.xlsx'',
                                      roll_column = ''Roll No'', name_column = ''Student Name''\<rparr>],
      attendance_records = [''ClassB'' \<mapsto> [''101'' \<mapsto> True]],
      student_buttons = [''ClassB'' \<mapsto> [''101'' \<mapsto> color_present]],
      frames = [history_sheet],
      files = Map.empty, dialogs = []\<rparr>"
  by (simp add: history_marked_def history_sheet_def load_eval open_eval toggle_attendance_def
      upt_rec numeral_eq_Suc)

lemma history_marked_ok: "class_ok history_marked ''ClassB''"
  by (simp add: class_ok_def frame_ok_def frame_wf_def columns_def history_marked_eq
      history_sheet_def pattern_eval)

lemmas save_eval =
  save_attendance_def save_body_def Let_def iterrows_def row_getitem_def str_eval
  setitem_def getitem_list_def columns_def count_present_def

lemma history_saved:
  "files (state_of (save_attendance example_str history_marked ''ClassB'' example_date True))
     ''/data/ClassB.xlsx'' =
   Some \<lparr>index_len = 1,
      data = [(''Roll No'', [CStr ''101'']), (''Student Name'', [CStr ''A'']), (''Total'', [CInt 3]),
              (''01-06-24'', [CStr ''Present'']), (''02-06-24'', [CStr ''present'']),
              (''03-06-24'', [CStr ''PRESENT'']), (''04-06-24'', [CStr ''Present'']),
              (''05-06-24'', [CStr ''Present''])]\<rparr>"
  by (simp add: history_marked_eq history_sheet_def example_date_str save_eval upt_rec)


theorem save_leaves_memory_unchanged_witness:
  "classes_data (state_of (save_attendance example_str history_marked ''ClassB'' example_date True)) =
     classes_data history_marked \<and>
   attendance_records (state_of (save_attendance example_str history_marked ''ClassB'' example_date True)) =
     attendance_records history_marked \<and>
   map_option dataframe (classes_data history_marked ''ClassB'') = Some 0 \<and>
   frames (state_of (save_attendance example_str history_marked ''ClassB'' example_date True)) ! 0 =
     frames history_marked ! 0 \<and>
   ''05-06-24'' \<notin> set (columns
      (frames (state_of (save_attendance example_str history_marked ''ClassB'' example_date True)) ! 0)) \<and>
   map_option (\<lambda>t. ''05-06-24'' \<in> set (columns t))
     (files (state_of (save_attendance example_str history_marked ''ClassB'' example_date True))
        ''/data/ClassB.xlsx'') = Some True"
proof -
  have i: "classes_data history_marked ''ClassB'' =
      Some \<lparr>dataframe = 0, file_path = ''/data/ClassB.xlsx'',
            roll_column = ''Roll No'', name_column = ''Student Name''\<rparr>"
    and f: "frames history_marked = [history_sheet]"
    by (simp_all add: history_marked_eq)
  have d: "''05-06-24'' \<notin> set (columns history_sheet)"
    by (simp add: columns_def history_sheet_def)
  let ?st' = "state_of (save_attendance example_str history_marked ''ClassB'' example_date True)"
  from save_leaves_memory_unchanged [of example_str history_marked "''ClassB''" example_date True]
  have m: "classes_data ?st' = classes_data history_marked"
    "attendance_records ?st' = attendance_records history_marked"
    and a: "\<forall>c' info. classes_data history_marked c' = Some info \<and>
              dataframe info < length (frames history_marked) \<longrightarrow>
              frames ?st' ! dataframe info = frames history_marked ! dataframe info"
    by blast+
  have same: "frames ?st' ! 0 = frames history_marked ! 0"
    using a [rule_format, of "''ClassB''"] i f by simp
  then have "''05-06-24'' \<notin> set (columns (frames ?st' ! 0))"
    using d f by simp
  with m same i show ?thesis
    by (simp add: history_saved columns_def)
qed

lemma total_counts_present_example:
  "class_ok history_marked ''ClassB'' \<and>
   (\<exists>t. files (state_of (save_attendance example_str history_marked ''ClassB'' example_date True))
          ''/data/ClassB.xlsx'' = Some t \<and>
        index_len t = 1 \<and>
        attendance_cells t ''Roll No'' ''Student Name'' 0 =
          [CStr ''Present'', CStr ''present'', CStr ''PRESENT'', CStr ''Present'', CStr ''Present''] \<and>
        present_count t ''Roll No'' ''Student Name'' 0 = 3 \<and>
        total_cells t 0 = [CInt 3])"
proof -
  let ?info = "\<lparr>dataframe = 0, file_path = ''/data/ClassB.xlsx'',
                 roll_column = ''Roll No'', name_column = ''Student Name''\<rparr>"
  have i: "classes_data history_marked ''ClassB'' = Some ?info"
    by (simp add: history_marked_eq)
  have l: "attendance_records history_marked ''ClassB'' = Some [''101'' \<mapsto> True]"
    by (simp add: history_marked_eq)
  have one: "\<not> (1 < count_list (columns (frames history_marked ! dataframe ?info)) ''Total'' \<and>
      count_list (columns (frames history_marked ! dataframe ?info)) ''Total'' =
        index_len (frames history_marked ! dataframe ?info))"
    by (simp add: history_marked_eq history_sheet_def columns_def)
  from total_counts_present_unless_spread [OF history_marked_ok i l one, of example_str example_date]
  obtain t where t: "files (state_of (save_attendance example_str history_marked ''ClassB'' example_date True))
      ''/data/ClassB.xlsx'' = Some t"
    and tot: "\<forall>i<index_len t. total_cells t i \<noteq> [] \<and>
       (\<forall>v\<in>set (total_cells t i). v = CInt (present_count t ''Roll No'' ''Student Name'' i))"
    by auto
  have e: "t = \<lparr>index_len = 1,
      data = [(''Roll No'', [CStr ''101'']), (''Student Name'', [CStr ''A'']), (''Total'', [CInt 3]),
              (''01-06-24'', [CStr ''Present'']), (''02-06-24'', [CStr ''present'']),
              (''03-06-24'', [CStr ''PRESENT'']), (''04-06-24'', [CStr ''Present'']),
              (''05-06-24'', [CStr ''Present''])]\<rparr>"
    using t history_saved by simp
  have "index_len t = 1"
    "attendance_cells t ''Roll No'' ''Student Name'' 0 =
       [CStr ''Present'', CStr ''present'', CStr ''PRESENT'', CStr ''Present'', CStr ''Present'']"
    "present_count t ''Roll No'' ''Student Name'' 0 = 3"
    "total_cells t 0 = [CInt 3]"
    using tot by (simp_all add: e attendance_cells_def present_count_def total_cells_def)
  with t history_marked_ok show ?thesis by blast
qed

lemma pair_marked_eq:
  "pair_marked =
     \<lparr>classes_data = [''ClassA'' \<mapsto> \<lparr>dataframe = 0, file_path = ''/data/ClassA.xlsx'',
                                      roll_column = ''Roll No'', name_column = ''Total''\<rparr>],
      attendance_records = [''ClassA'' \<mapsto> [''101'' \<mapsto> True, ''102'' \<mapsto> False]],
      student_buttons = [''ClassA'' \<mapsto> [''101'' \<mapsto> color_present, ''102'' \<mapsto> color_absent]],
      frames = [\<lparr>index_len = 2,
                 data = [(''Roll No'', [CStr ''101'', CStr ''102'']), (''Total'', [CInt 0, CInt 0]),
                         (''Total'', [CInt 0, CInt 0])]\<rparr>],
      files = Map.empty, dialogs = []\<rparr>"
  by (simp add: pair_marked_def sheet_roll_only_def load_eval open_eval toggle_attendance_def
      upt_rec numeral_eq_Suc fun_upd_twist)

text \<open>The state is reachable, and its class satisfies the invariant.\<close>

lemma pair_marked_reachable: "reachable example_str pair_marked"
  unfolding pair_marked_def
  by (intro reachable.intros) (simp add: sheet_roll_only_def frame_wf_def columns_def)

lemma pair_marked_ok: "class_ok pair_marked ''ClassA''"
  by (simp add: class_ok_def frame_ok_def frame_wf_def columns_def pair_marked_eq pattern_eval)

text \<open>
  C1. After every save, the \<open>Total\<close> cell of every row is to be the number of attendance
  columns whose cell in that row is exactly \<open>Present\<close>. The code does not keep this for
  every class. For the sheet with the single column \<open>Roll No\<close> the fallback of
  \<^verbatim>\<open>detect_data_columns\<close> takes \<open>Total\<close> as the name column, so the stored table carries the
  label \<open>Total\<close> twice. With two rows, the assignment of the two recomputed totals to
  \<open>Total\<close> gives the first total to the whole first of these columns and the second total
  to the whole second one. Student \<open>101\<close> is present and student \<open>102\<close> is absent: in the
  written table both rows have the \<open>Total\<close> cells 1, 0, 1, 0, while the row of \<open>101\<close> has
  one \<open>Present\<close> and the row of \<open>102\<close> has none.
\<close>

theorem total_spread_over_columns:
  "map_option (\<lambda>info. (roll_column info, name_column info, columns (frames pair_marked ! dataframe info)))
     (classes_data pair_marked ''ClassA'') =
     Some (''Roll No'', ''Total'', [''Roll No'', ''Total'', ''Total'']) \<and>
   map_option
     (\<lambda>t. (columns t, attendance_cells t ''Roll No'' ''Total'' 0, total_cells t 0,
            present_count t ''Roll No'' ''Total'' 0,
            attendance_cells t ''Roll No'' ''Total'' 1, total_cells t 1,
            present_count t ''Roll No'' ''Total'' 1))
     (files (state_of (save_attendance example_str pair_marked ''ClassA'' example_date True))
        ''/data/ClassA.xlsx'') =
     Some ([''Roll No'', ''Total'', ''Total'', ''Total'', ''Total'', ''05-06-24''],
           [CStr ''Present''], [CInt 1, CInt 0, CInt 1, CInt 0], 1,
           [CStr ''Absent''], [CInt 1, CInt 0, CInt 1, CInt 0], 0)"
  by (simp add: pair_marked_eq sheet_roll_only_def example_date_str save_eval upt_rec
      attendance_cells_def total_cells_def present_count_def)

theorem save_twice_same_date_witness:
  "class_ok history_marked ''ClassB'' \<and>
   strftime_dmy example_date = ''05-06-24'' \<and>
   (\<exists>t. files (state_of (save_attendance example_str history_marked ''ClassB'' example_date True))
          ''/data/ClassB.xlsx'' = Some t \<and>
        files (state_of (save_attendance example_str
                 (state_of (save_attendance example_str history_marked ''ClassB'' example_date True))
                 ''ClassB'' example_date True))
          ''/data/ClassB.xlsx'' = Some t \<and>
        total_cells t 0 = [CInt 3] \<and>
        count_list (columns t) ''05-06-24'' = 1)"
proof -
  let ?info = "\<lparr>dataframe = 0, file_path = ''/data/ClassB.xlsx'',
                 roll_column = ''Roll No'', name_column = ''Student Name''\<rparr>"
  have i: "classes_data history_marked ''ClassB'' = Some ?info"
    by (simp add: history_marked_eq)
  have l: "attendance_records history_marked ''ClassB'' = Some [''101'' \<mapsto> True]"
    by (simp add: history_marked_eq)
  from save_twice_same_date [OF history_marked_ok i l refl, of example_str]
  obtain t where t: "files (state_of (save_attendance example_str history_marked ''ClassB'' example_date True))
      ''/data/ClassB.xlsx'' = Some t"
    "files (state_of (save_attendance example_str
                 (state_of (save_attendance example_str history_marked ''ClassB'' example_date True))
                 ''ClassB'' example_date True))
          ''/data/ClassB.xlsx'' = Some t"
    "count_list (columns t) (strftime_dmy example_date) = 1"
    by auto
  have "total_cells t 0 = [CInt 3]"
    using t(1) history_saved by (auto simp: total_cells_def)
  with t history_marked_ok example_date_str show ?thesis by auto
qed

section \<open>What a load establishes\<close>

lemma detect_columns_result:
  assumes "detect_columns cols = Inr (r, n)"
  shows "r \<in> set cols \<and> n \<in> set cols \<and>
         (distinct cols \<longrightarrow> r = n \<longrightarrow> matches_any roll_patterns r \<or> matches_any name_patterns r)"
proof (cases "\<exists>c\<in>set cols. matches_any roll_patterns c")
  case True
  then obtain pre a post where split: "cols = pre @ a # post" "matches_any roll_patterns a"
      "\<forall>c\<in>set pre. \<not> matches_any roll_patterns c"
    using split_list_first_prop [of cols "matches_any roll_patterns"] by blast
  have a: "a \<noteq> []" using split(2) matches_any_nonempty by blast
  have sc: "scan_columns cols None None = (Some a, find (matches_any name_patterns) (pre @ post))"
    using scan_columns_first_roll [OF split(3,2)] split(1) by simp
  have r: "r = a"
    using assms a by (auto simp: detect_columns_def sc or_column_def split: sum.splits if_splits)
  have n: "n \<in> set cols"
  proof (cases "find (matches_any name_patterns) (pre @ post)")
    case None
    then show ?thesis
      using assms a by (auto simp: detect_columns_def sc or_column_def split: sum.splits if_splits)
  next
    case (Some b)
    then have "b \<in> set (pre @ post)" and "matches_any name_patterns b"
      using find_Some_mem [OF Some] by simp_all
    then have "b \<noteq> []" and "b \<in> set cols"
      using matches_any_nonempty split(1) by auto
    then show ?thesis
      using assms a Some by (auto simp: detect_columns_def sc or_column_def split: sum.splits if_splits)
  qed
  have "r \<in> set cols" using r split(1) by simp
  moreover have "matches_any roll_patterns r" using r split(2) by simp
  ultimately show ?thesis using n by blast
next
  case False
  then have sc: "scan_columns cols None None = (None, find (matches_any name_patterns) cols)"
    by (simp add: scan_columns_no_roll)
  have r: "0 < length cols" "r = cols ! 0"
    using assms by (auto simp: detect_columns_def sc or_column_def split: sum.splits if_splits)
  show ?thesis
  proof (cases "find (matches_any name_patterns) cols")
    case None
    then have n: "1 < length cols" "n = cols ! 1"
      using assms by (auto simp: detect_columns_def sc or_column_def split: sum.splits if_splits)
    then have "distinct cols \<longrightarrow> r \<noteq> n"
      using r by (auto simp: nth_eq_iff_index_eq)
    then show ?thesis using r n by auto
  next
    case (Some b)
    then have b: "b \<in> set cols" "matches_any name_patterns b"
      using find_Some_mem [OF Some] by simp_all
    then have "b \<noteq> []" using matches_any_nonempty by blast
    then have "n = b"
      using assms Some by (auto simp: detect_columns_def sc or_column_def split: sum.splits if_splits)
    then show ?thesis using r b by auto
  qed
qed

lemma select_one_label:
  assumes "distinct (map fst xs)" and "k \<in> fst ` set xs"
  shows "map fst (filter (\<lambda>(l, cs). l = k) xs) = [k]"
  using assms
proof (induction xs)
  case Nil
  then show ?case by simp
next
  case (Cons x xs)
  obtain l cs where x: "x = (l, cs)" by (cases x)
  show ?case
  proof (cases "l = k")
    case True
    then have "k \<notin> fst ` set xs" using Cons.prems(1) by (simp add: x)
    then have "filter (\<lambda>(l, cs). l = k) xs = []" by (force simp: filter_empty_conv)
    then show ?thesis using True by (simp add: x)
  next
    case False
    then have "k \<in> fst ` set xs" using Cons.prems(2) by (simp add: x)
    then show ?thesis using False Cons.IH Cons.prems(1) by (simp add: x)
  qed
qed

lemma select_labels:
  assumes "distinct (map fst xs)" and "set keys \<subseteq> fst ` set xs"
  shows "map fst (concat (map (\<lambda>k. filter (\<lambda>(l, cs). l = k) xs) keys)) = keys"
  using assms(2)
proof (induction keys)
  case Nil
  then show ?case by simp
next
  case (Cons k keys)
  then have "map fst (filter (\<lambda>(l, cs). l = k) xs) = [k]"
    using select_one_label [OF assms(1)] by simp
  then show ?case using Cons by simp
qed

lemma getitem_list_wf:
  assumes "frame_wf df" and "getitem_list df keys = Inr df'"
  shows "frame_wf df'"
  using assms
  by (auto simp: getitem_list_def frame_wf_def list_all_iff split: option.splits)

lemma load_class_result:
  assumes wf: "frame_wf df0" and d: "distinct (columns df0)"
    and l: "load_class st path (Inr df0) = Inr st'"
  shows "\<exists>info df'. st' = st\<lparr>frames := frames st @ [df'],
                              classes_data := (classes_data st)(class_name_of path \<mapsto> info)\<rparr> \<and>
           dataframe info = length (frames st) \<and> file_path info = path \<and>
           columns df' =
             [roll_column info, name_column info, ''Total''] @
             filter (\<lambda>col. col \<notin> set [roll_column info, name_column info, ''Total''])
               (if ''Total'' \<in> set (columns df0) then columns df0 else columns df0 @ [''Total'']) \<and>
           frame_ok df' (roll_column info) (name_column info)"
proof -
  have len: "length (replicate (index_len df0) (CInt 0)) = index_len df0" by simp
  from setitem_ok [OF len, of "''Total''"]
  obtain dft where t: "setitem df0 ''Total'' (replicate (index_len df0) (CInt 0)) = Inr dft"
    and ct: "columns dft = (if ''Total'' \<in> set (columns df0) then columns df0 else columns df0 @ [''Total''])"
    by blast
  define df where "df = (if ''Total'' \<notin> set (columns df0) then dft else df0)"
  have cdf: "columns df = (if ''Total'' \<in> set (columns df0) then columns df0 else columns df0 @ [''Total''])"
    by (simp add: df_def ct)
  have wfdf: "frame_wf df" using wf setitem_wf [OF wf t] by (simp add: df_def)
  have ddf: "distinct (columns df)" using d by (simp add: cdf)
  have tot: "''Total'' \<in> set (columns df)" by (simp add: cdf)
  have pre: "(if ''Total'' \<notin> set (columns df0)
              then setitem df0 ''Total'' (replicate (index_len df0) (CInt 0)) else Inr df0) = Inr df"
    by (simp add: df_def t)
  obtain roll name where det: "detect_data_columns df = Inr (roll, name)"
    using l by (auto simp: load_class_def pre Let_def split: sum.splits)
  define keys where
    "keys = [roll, name, ''Total''] @ filter (\<lambda>col. col \<notin> set [roll, name, ''Total'']) (columns df)"
  from detect_columns_result [OF det [unfolded detect_data_columns_def]]
  have rm: "roll \<in> set (columns df)" and nm: "name \<in> set (columns df)"
    and same: "roll = name \<longrightarrow> matches_any roll_patterns roll \<or> matches_any name_patterns roll"
    using ddf by simp_all
  have sub: "set keys \<subseteq> set (columns df)" using rm nm tot by (auto simp: keys_def)
  define df' where "df' = df\<lparr>data := concat (map (\<lambda>k. filter (\<lambda>(l, cs). l = k) (data df)) keys)\<rparr>"
  have g: "getitem_list df keys = Inr df'"
    unfolding df'_def by (rule getitem_list_ok [OF sub])
  define info where "info = \<lparr>dataframe = length (frames st), file_path = path,
                               roll_column = roll, name_column = name\<rparr>"
  have st': "st' = st\<lparr>frames := frames st @ [df'],
                        classes_data := (classes_data st)(class_name_of path \<mapsto> info)\<rparr>"
    using l g [unfolded keys_def]
    by (simp add: load_class_def pre det Let_def info_def)
  have cols': "columns df' = keys"
    using select_labels [OF ddf [unfolded columns_def], of keys] sub
    by (simp add: df'_def columns_def)
  have wf': "frame_wf df'" using getitem_list_wf [OF wfdf g] .
  have "frame_ok df' roll name"
    using wf' same ddf
    by (auto simp: frame_ok_def cols' keys_def list_all_iff)
  then show ?thesis
    using st' cols' cdf
    by (intro exI [of _ info] exI [of _ df']) (simp add: info_def keys_def)
qed

section \<open>The invariant of the stored tables\<close>

lemma class_ok_kept:
  assumes "class_ok st c" and "classes_data st' c = classes_data st c"
    and "take (length (frames st)) (frames st') = frames st"
  shows "class_ok st' c"
proof -
  obtain info where info: "classes_data st c = Some info"
    and lt: "dataframe info < length (frames st)"
    and fok: "frame_ok (frames st ! dataframe info) (roll_column info) (name_column info)"
    using assms(1) by (auto simp: class_ok_def split: option.splits)
  have "length (take (length (frames st)) (frames st')) = length (frames st)"
    using assms(3) by simp
  then have len: "length (frames st) \<le> length (frames st')" by simp
  have "frames st' ! dataframe info = take (length (frames st)) (frames st') ! dataframe info"
    using lt by simp
  then have "frames st' ! dataframe info = frames st ! dataframe info"
    by (simp add: assms(3))
  then show ?thesis using info lt fok len assms(2) by (simp add: class_ok_def)
qed

lemma grid_rows_frame:
  "classes_data (state_of (grid_rows py_str c roll name rows st)) = classes_data st \<and>
   frames (state_of (grid_rows py_str c roll name rows st)) = frames st"
  by (induction rows arbitrary: st) (auto simp: Let_def split: sum.splits option.splits)

lemma open_frame:
  "classes_data (state_of (open_attendance_screen py_str st c)) = classes_data st \<and>
   frames (state_of (open_attendance_screen py_str st c)) = frames st"
  by (simp add: open_attendance_screen_def create_student_grid_def Let_def grid_rows_frame
      split: option.splits)

lemma toggle_frame:
  "classes_data (state_of (toggle_attendance st c sid)) = classes_data st \<and>
   frames (state_of (toggle_attendance st c sid)) = frames st"
  by (simp add: toggle_attendance_def Let_def split: option.splits)

lemma class_ok_after_load:
  assumes "case read of Inl e \<Rightarrow> True | Inr df \<Rightarrow> frame_wf df \<and> distinct (columns df)"
    and "\<forall>c info. classes_data st c = Some info \<longrightarrow> class_ok st c"
    and "classes_data (state_of (add_new_class st path read)) c = Some info"
  shows "class_ok (state_of (add_new_class st path read)) c"
proof (cases "path = [] \<or> (\<exists>e. load_class st path read = Inl e)")
  case True
  then have "classes_data (state_of (add_new_class st path read)) = classes_data st"
    "frames (state_of (add_new_class st path read)) = frames st"
    by (auto simp: add_new_class_def)
  then show ?thesis using assms(2,3) class_ok_kept [of st c] by simp
next
  case False
  then obtain st' where l: "load_class st path read = Inr st'" and p: "path \<noteq> []"
    by (cases "load_class st path read") auto
  have "load_class st path (Inl e) = Inl e" for e
    by (simp add: load_class_def)
  then obtain df0 where r: "read = Inr df0"
    using l by (cases read) auto
  have st': "state_of (add_new_class st path read) = st'"
    using l p by (simp add: add_new_class_def)
  have wf0: "frame_wf df0" "distinct (columns df0)" using assms(1) r by simp_all
  have l0: "load_class st path (Inr df0) = Inr st'" using l r by simp
  from load_class_result [OF wf0 l0]
  obtain i df' where i: "st' = st\<lparr>frames := frames st @ [df'],
                          classes_data := (classes_data st)(class_name_of path \<mapsto> i)\<rparr>"
    "dataframe i = length (frames st)"
    "frame_ok df' (roll_column i) (name_column i)"
    by blast
  have fr: "frames st' = frames st @ [df']"
    and cd: "classes_data st' = (classes_data st)(class_name_of path \<mapsto> i)"
    by (simp_all add: i(1))
  show ?thesis
  proof (cases "c = class_name_of path")
    case True
    then have "classes_data st' c = Some i" by (simp add: cd)
    moreover have "dataframe i < length (frames st')" by (simp add: fr i(2))
    moreover have "frames st' ! dataframe i = df'" by (simp add: fr i(2))
    ultimately show ?thesis using i(3) by (simp add: st' class_ok_def)
  next
    case False
    then have same: "classes_data st' c = classes_data st c" by (simp add: cd)
    then have ok: "class_ok st c" using assms(2,3) by (simp add: st')
    have tk: "take (length (frames st)) (frames st') = frames st" by (simp add: fr)
    show ?thesis unfolding st' using ok same tk by (rule class_ok_kept)
  qed
qed

text \<open>Every class of every reachable state satisfies the invariant that the theorems on
  \<^verbatim>\<open>save_attendance\<close> and \<^verbatim>\<open>open_attendance_screen\<close> assume.\<close>

lemma reachable_class_ok:
  "reachable py_str st \<Longrightarrow> \<forall>c info. classes_data st c = Some info \<longrightarrow> class_ok st c"
proof (induction rule: reachable.induct)
  case init
  show ?case by (simp add: initialize_data_structures_def)
next
  case (load st read path)
  then show ?case using class_ok_after_load by blast
next
  case (opened st class_name)
  show ?case
  proof (intro allI impI)
    fix c info
    assume a: "classes_data (state_of (open_attendance_screen py_str st class_name)) c = Some info"
    have f: "classes_data (state_of (open_attendance_screen py_str st class_name)) = classes_data st"
      "frames (state_of (open_attendance_screen py_str st class_name)) = frames st"
      using open_frame [of py_str st class_name] by simp_all
    have "class_ok st c" using a opened.IH by (simp add: f)
    then show "class_ok (state_of (open_attendance_screen py_str st class_name)) c"
      by (rule class_ok_kept) (simp_all add: f)
  qed
next
  case (toggled st class_name student_id)
  show ?case
  proof (intro allI impI)
    fix c info
    assume a: "classes_data (state_of (toggle_attendance st class_name student_id)) c = Some info"
    have f: "classes_data (state_of (toggle_attendance st class_name student_id)) = classes_data st"
      "frames (state_of (toggle_attendance st class_name student_id)) = frames st"
      using toggle_frame [of st class_name student_id] by simp_all
    have "class_ok st c" using a toggled.IH by (simp add: f)
    then show "class_ok (state_of (toggle_attendance st class_name student_id)) c"
      by (rule class_ok_kept) (simp_all add: f)
  qed
next
  case (saved st class_name now writable)
  have "classes_data (state_of (save_attendance py_str st class_name now writable)) = classes_data st"
  proof -
    obtain e st' where b: "save_body py_str st class_name now writable = (e, st')"
      by (cases "save_body py_str st class_name now writable")
    from save_body_frame [OF b] b show ?thesis by (cases e) (simp_all add: save_attendance_def)
  qed
  moreover have "\<And>c. class_ok st c \<Longrightarrow>
      class_ok (state_of (save_attendance py_str st class_name now writable)) c"
  proof -
    fix c assume ok: "class_ok st c"
    obtain e st' where b: "save_body py_str st class_name now writable = (e, st')"
      by (cases "save_body py_str st class_name now writable")
    from save_body_frame [OF b]
    have "classes_data st' c = classes_data st c"
      "take (length (frames st)) (frames st') = frames st" by simp_all
    from class_ok_kept [OF ok this] have "class_ok st' c" .
    then have "class_ok (st'\<lparr>dialogs := d\<rparr>) c" for d
      by (simp add: class_ok_def split: option.splits)
    then show "class_ok (state_of (save_attendance py_str st class_name now writable)) c"
      using b by (cases e) (simp_all add: save_attendance_def)
  qed
  ultimately show ?case using saved.IH by simp
qed

section \<open>The order of the columns\<close>

text \<open>
  After a load the labels of the stored table are the identifier column, the name column
  and \<open>Total\<close>, followed by the other labels in their original order, for every order of
  the sheet's columns: this is part of \<open>load_class_result\<close>. After a save the written
  table has its labels in that order whenever identifier column, name column and \<open>Total\<close>
  are three different labels.
\<close>

lemma save_column_order_distinct:
  assumes "class_ok st c" and "classes_data st c = Some info"
    and "attendance_records st c = Some ledger"
    and "roll_column info \<noteq> name_column info" and "roll_column info \<noteq> ''Total''"
    and "name_column info \<noteq> ''Total''"
  shows "\<exists>t. files (state_of (save_attendance py_str st c now True)) (file_path info) = Some t \<and>
           columns t =
             [roll_column info, name_column info, ''Total''] @
             filter (\<lambda>col. col \<notin> set [roll_column info, name_column info, ''Total''])
               (if strftime_dmy now \<in> set (columns (frames st ! dataframe info))
                then columns (frames st ! dataframe info)
                else columns (frames st ! dataframe info) @ [strftime_dmy now])"
proof -
  define roll where "roll = roll_column info"
  define name where "name = name_column info"
  define df where "df = frames st ! dataframe info"
  define date where "date = strftime_dmy now"
  define others where "others = drop 3 (columns df)"
  from save_body_steps [OF assms(1-3), of py_str now True]
  obtain statuses df2 df3 where
    a1: "attendance_list py_str st c (roll_column info) (iterrows (frames st ! dataframe info)) =
           Inr statuses"
    and c2': "columns df2 = (if strftime_dmy now \<in> set (columns (frames st ! dataframe info))
                    then columns (frames st ! dataframe info)
                    else columns (frames st ! dataframe info) @ [strftime_dmy now])"
    and c3: "columns df3 = columns df2"
    and body': "save_body py_str st c now True =
       (if True then (None, st\<lparr>frames := frames st @ [df3],
                           files := (files st)(file_path info \<mapsto>
                                      reordered df3 (roll_column info) (name_column info))\<rparr>)
        else (Some WriteError, st\<lparr>frames := frames st @ [df3]\<rparr>))"
    by blast
  have c2: "columns df2 = (if date \<in> set (columns df) then columns df else columns df @ [date])"
    using c2' by (simp only: date_def df_def)
  have body: "save_body py_str st c now True =
       (None, st\<lparr>frames := frames st @ [df3],
                  files := (files st)(file_path info \<mapsto> reordered df3 roll name)\<rparr>)"
    using body' by (simp add: roll_def name_def)
  have written: "files (state_of (save_attendance py_str st c now True)) (file_path info) =
      Some (reordered df3 roll name)"
    by (simp add: save_attendance_written [OF body])
  have fok: "frame_ok df roll name"
    using assms(1,2) by (simp add: class_ok_def df_def roll_def name_def)
  have cols: "columns df = [roll, name, ''Total''] @ others"
    using frame_ok_columns [OF fok] by (simp add: others_def)
  have allQ: "\<forall>l\<in>set others. l \<noteq> roll \<and> l \<noteq> name \<and> l \<noteq> ''Total''"
    using fok by (auto simp: frame_ok_def others_def list_all_iff)
  have ne: "roll \<noteq> name" "roll \<noteq> ''Total''" "name \<noteq> ''Total''"
    using assms(4-6) by (simp_all add: roll_def name_def)
  have nt: "date \<noteq> ''Total''" unfolding date_def by (rule date_not_total)
  have no: "filter (\<lambda>l. l = k) others = []" if "k \<in> set [roll, name, ''Total'']" for k
    using that allQ by (auto simp: filter_empty_conv)
  have dk: "date \<notin> set (columns df) \<Longrightarrow> date \<noteq> k" if "k \<in> set [roll, name, ''Total'']" for k
    using that cols by auto
  have kr: "filter (\<lambda>l. l = roll) (columns df2) = [roll]"
    using ne no [of roll] dk [of roll] by (cases "date \<in> set (columns df)") (simp_all add: c2 cols)
  have kn: "filter (\<lambda>l. l = name) (columns df2) = [name]"
    using ne no [of name] dk [of name] by (cases "date \<in> set (columns df)") (simp_all add: c2 cols)
  have kt: "filter (\<lambda>l. l = ''Total'') (columns df2) = [''Total'']"
    using ne no [of "''Total''"] dk [of "''Total''"]
    by (cases "date \<in> set (columns df)") (simp_all add: c2 cols)
  have "columns (reordered df3 roll name) =
      [roll, name, ''Total''] @ filter (\<lambda>col. col \<notin> set [roll, name, ''Total'']) (columns df2)"
    by (simp only: columns_reordered c3 kr kn kt append.simps)
  then have "columns (reordered df3 roll name) =
      [roll, name, ''Total''] @ filter (\<lambda>col. col \<notin> set [roll, name, ''Total''])
        (if date \<in> set (columns df) then columns df else columns df @ [date])"
    by (simp only: c2)
  with written show ?thesis
    unfolding roll_def name_def df_def date_def by blast
qed

text \<open>
  C2. The columns are to stand in the order identifier column, name column, \<open>Total\<close>,
  then the others in their original order, after every load and every save. The code does
  not keep the order after every save. When the fallback of \<^verbatim>\<open>detect_data_columns\<close> has
  returned a column that already has a role, the stored table carries that label twice,
  and the final selection of \<^verbatim>\<open>save_attendance\<close> yields every column with a requested
  label once per request. For the sheet with the headers \<open>Class, Roll No\<close> identifier and
  name column are both \<open>Roll No\<close>; the loaded table has the labels
  \<open>Roll No, Roll No, Total, Class\<close>, and the table written by a save has \<open>Roll No\<close> four
  times, so that its third column is not \<open>Total\<close>.
\<close>

theorem reorder_repeats_columns:
  "map_option (\<lambda>info. (roll_column info, name_column info, columns (frames repeated_loaded ! dataframe info)))
     (classes_data repeated_loaded ''ClassA'') =
     Some (''Roll No'', ''Roll No'', [''Roll No'', ''Roll No'', ''Total'', ''Class'']) \<and>
   map_option columns
     (files (state_of (save_attendance py_str
               (state_of (open_attendance_screen py_str repeated_loaded ''ClassA''))
               ''ClassA'' example_date True))
        ''/data/ClassA.xlsx'') =
     Some [''Roll No'', ''Roll No'', ''Roll No'', ''Roll No'', ''Total'', ''Class'', ''05-06-24'']"
proof -
  have l: "repeated_loaded =
     \<lparr>classes_data = [''ClassA'' \<mapsto> \<lparr>dataframe = 0, file_path = ''/data/ClassA.xlsx'',
                                      roll_column = ''Roll No'', name_column = ''Roll No''\<rparr>],
      attendance_records = Map.empty, student_buttons = Map.empty,
      frames = [\<lparr>index_len = 1,
                 data = [(''Roll No'', [CStr ''101'']), (''Roll No'', [CStr ''101'']),
                         (''Total'', [CInt 0]), (''Class'', [CStr ''X''])]\<rparr>],
      files = Map.empty, dialogs = []\<rparr>"
    by (simp add: repeated_loaded_def sheet_class_roll_def load_eval numeral_eq_Suc)
  show ?thesis
    by (simp add: l example_date_str open_attendance_screen_def create_student_grid_def
        save_attendance_def save_body_def Let_def iterrows_def row_getitem_def
        setitem_def getitem_list_def columns_def count_present_def upt_rec)
qed

end
